theory Spec2Isabelle
  imports Complex_Main "HOL-Library.AList"
begin

section \<open>Python values\<close>

text \<open>
  A Python \<open>str\<close> is a sequence of Unicode code points and \<open>len\<close> counts code points,
  so a string is a list of code points here.  The source's string literals are ASCII or
  Korean; ASCII literals are written through \<open>asc\<close>, Korean ones as code-point lists.
\<close>

type_synonym pystr = "nat list"

definition asc :: "string \<Rightarrow> pystr" where
  "asc s = map of_char s"

datatype error = ValueError | ZeroDivisionError | IndexError | TypeError | RuntimeError

text \<open>
  The characters for which \<open>str.isspace\<close> holds; \<open>str.strip()\<close>, \<open>str.split()\<close> and the
  pattern \<open>\s\<close> of \<open>re\<close> on a \<open>str\<close> all use this one class.
\<close>

definition isspace :: "nat \<Rightarrow> bool" where
  "isspace c \<longleftrightarrow>
     (9 \<le> c \<and> c \<le> 13) \<or> (28 \<le> c \<and> c \<le> 32) \<or> c = 133 \<or> c = 160 \<or> c = 5760 \<or>
     (8192 \<le> c \<and> c \<le> 8202) \<or> c = 8232 \<or> c = 8233 \<or> c = 8239 \<or> c = 8287 \<or> c = 12288"

definition strip :: "pystr \<Rightarrow> pystr" where
  "strip s = rev (dropWhile isspace (rev (dropWhile isspace s)))"

text \<open>A text is blank when it is empty or all whitespace.\<close>

definition is_blank :: "pystr \<Rightarrow> bool" where
  "is_blank s \<longleftrightarrow> (\<forall>c \<in> set s. isspace c)"

text \<open>\<open>s.split(c)\<close> for a one-character separator: never empty, \<open>"".split(c) == [""]\<close>.\<close>

fun split_char_from :: "nat \<Rightarrow> pystr \<Rightarrow> pystr \<Rightarrow> pystr list" where
  "split_char_from c cur [] = [cur]"
| "split_char_from c cur (x # xs) =
     (if x = c then cur # split_char_from c [] xs else split_char_from c (cur @ [x]) xs)"

definition split_char :: "nat \<Rightarrow> pystr \<Rightarrow> pystr list" where
  "split_char c s = split_char_from c [] s"

text \<open>\<open>sep.join(xs)\<close>.\<close>

fun join :: "pystr \<Rightarrow> pystr list \<Rightarrow> pystr" where
  "join sep [] = []"
| "join sep [x] = x"
| "join sep (x # y # ys) = x @ sep @ join sep (y # ys)"

text \<open>Index normalisation of a slice bound: negative bounds count from the end, and the
  result is clamped to \<open>0..len\<close>.\<close>

definition py_clip :: "nat \<Rightarrow> int \<Rightarrow> nat" where
  "py_clip n i = (if i < 0 then nat (max 0 (int n + i)) else min n (nat i))"

definition py_slice :: "'a list \<Rightarrow> int \<Rightarrow> int \<Rightarrow> 'a list" where
  "py_slice s a b =
     (let lo = py_clip (length s) a; hi = py_clip (length s) b
      in take (hi - lo) (drop lo s))"

text \<open>\<open>s.rfind(c, start, end)\<close> for a one-character \<open>c\<close>: the highest index in the slice, or \<open>-1\<close>.\<close>

definition rfind :: "pystr \<Rightarrow> nat \<Rightarrow> int \<Rightarrow> int \<Rightarrow> int" where
  "rfind s c a b =
     (let lo = py_clip (length s) a; hi = py_clip (length s) b;
          hits = filter (\<lambda>i. s ! i = c) [lo..<hi]
      in if hits = [] then - 1 else int (last hits))"

section \<open>The Markdown chunker (src/utils/chunker.py)\<close>

record MarkdownChunker =
  chunk_size :: int
  chunk_overlap :: int

text \<open>A chunk is the dict \<open>{"text": ..., "metadata": {}}\<close>.\<close>

record chunk =
  chunk_text :: pystr
  chunk_metadata :: "(pystr \<times> pystr) list"

definition MarkdownChunker_init :: "int \<Rightarrow> int \<Rightarrow> error + MarkdownChunker" where
  "MarkdownChunker_init csize coverlap =
     (if csize \<le> 0 then Inl ValueError
      else if coverlap \<ge> csize then Inl ValueError
      else if coverlap < 0 then Inl ValueError
      else Inr \<lparr>chunk_size = csize, chunk_overlap = coverlap\<rparr>)"

text \<open>\<open>re.match(r"^#{1,6}\s+", line)\<close>: one to six \<open>#\<close> and then a whitespace character.\<close>

definition is_header :: "pystr \<Rightarrow> bool" where
  "is_header line =
     (let k = length (takeWhile (\<lambda>c. c = 35) line)
      in 1 \<le> k \<and> (\<exists>j \<in> {1..min k 6}. j < length line \<and> isspace (line ! j)))"

fun split_lines_into_sections :: "pystr list \<Rightarrow> pystr list \<Rightarrow> pystr list \<Rightarrow> pystr list" where
  "split_lines_into_sections [] current_section sections =
     (if current_section \<noteq> [] then sections @ [join [10] current_section] else sections)"
| "split_lines_into_sections (line # lines) current_section sections =
     (if is_header line \<or> strip line = [45, 45, 45] then
        (if current_section \<noteq> [] then
           split_lines_into_sections lines [line] (sections @ [join [10] current_section])
         else split_lines_into_sections lines (current_section @ [line]) sections)
      else split_lines_into_sections lines (current_section @ [line]) sections)"

definition split_into_sections :: "pystr \<Rightarrow> pystr list" where
  "split_into_sections markdown = split_lines_into_sections (split_char 10 markdown) [] []"

text \<open>
  The \<open>while start < len(section)\<close> loop of \<open>_chunk_section\<close>, one unfolding per
  iteration.  The loop has no bound in the source, so it is a partial function: \<open>None\<close>
  is a run that never leaves the loop.
\<close>

definition window_end :: "MarkdownChunker \<Rightarrow> pystr \<Rightarrow> int \<Rightarrow> int" where
  "window_end self section start =
     (let end = start + chunk_size self
      in if end < int (length section) then
           (let last_period = rfind section 46 start end;
                last_newline = rfind section 10 start end;
                last_break = max last_period last_newline
            in if last_break > start then last_break + 1 else end)
         else end)"

definition next_start :: "MarkdownChunker \<Rightarrow> int \<Rightarrow> int" where
  "next_start self end = (let start = end - chunk_overlap self in if start < 0 then end else start)"

partial_function (option) chunk_loop ::
  "MarkdownChunker \<Rightarrow> pystr \<Rightarrow> int \<Rightarrow> chunk list \<Rightarrow> chunk list option" where
  "chunk_loop self section start chunks =
     (if start < int (length section) then
        (let end = window_end self section start;
             chunk_text = strip (py_slice section start end);
             chunks' = (if chunk_text \<noteq> []
                        then chunks @ [\<lparr>chunk_text = chunk_text, chunk_metadata = []\<rparr>]
                        else chunks);
             start' = next_start self end
         in if start' \<ge> int (length section) then Some chunks'
            else chunk_loop self section start' chunks')
      else Some chunks)"

declare chunk_loop.simps [code]

definition chunk_section :: "MarkdownChunker \<Rightarrow> pystr \<Rightarrow> chunk list option" where
  "chunk_section self section =
     (if int (length section) \<le> chunk_size self
      then Some [\<lparr>chunk_text = strip section, chunk_metadata = []\<rparr>]
      else chunk_loop self section 0 [])"

fun chunk_sections :: "MarkdownChunker \<Rightarrow> pystr list \<Rightarrow> chunk list \<Rightarrow> chunk list option" where
  "chunk_sections self [] chunks = Some chunks"
| "chunk_sections self (section # sections) chunks =
     (case chunk_section self section of
        None \<Rightarrow> None
      | Some section_chunks \<Rightarrow> chunk_sections self sections (chunks @ section_chunks))"

definition chunk_markdown :: "MarkdownChunker \<Rightarrow> pystr \<Rightarrow> chunk list option" where
  "chunk_markdown self markdown_content =
     (if markdown_content = [] \<or> strip markdown_content = [] then Some []
      else chunk_sections self (split_into_sections markdown_content) [])"

text \<open>Every chunk of a list is at most \<open>chunk_size\<close> characters long.\<close>

definition bounded :: "MarkdownChunker \<Rightarrow> chunk list \<Rightarrow> bool" where
  "bounded self cs \<longleftrightarrow> (\<forall>c \<in> set cs. int (length (chunk_text c)) \<le> chunk_size self)"

section \<open>More Python primitives\<close>

text \<open>\<open>s.split()\<close> with no argument: the maximal runs of non-whitespace characters.\<close>

fun split_ws_from :: "pystr \<Rightarrow> pystr \<Rightarrow> pystr list" where
  "split_ws_from cur [] = (if cur = [] then [] else [cur])"
| "split_ws_from cur (c # cs) =
     (if isspace c then (if cur = [] then split_ws_from [] cs else cur # split_ws_from [] cs)
      else split_ws_from (cur @ [c]) cs)"

definition split_ws :: "pystr \<Rightarrow> pystr list" where
  "split_ws s = split_ws_from [] s"

text \<open>\<open>a / b\<close> on integers raises on a zero divisor; the quotient is kept exact.\<close>

definition py_truediv :: "nat \<Rightarrow> nat \<Rightarrow> error + rat" where
  "py_truediv a b = (if b = 0 then Inl ZeroDivisionError else Inr (of_nat a / of_nat b))"

text \<open>\<open>xs[i]\<close>: negative indices count from the end, out of range raises.\<close>

definition py_getitem :: "'a list \<Rightarrow> int \<Rightarrow> error + 'a" where
  "py_getitem xs i =
     (if 0 \<le> i \<and> i < int (length xs) then Inr (xs ! nat i)
      else if i < 0 \<and> - int (length xs) \<le> i then Inr (xs ! nat (int (length xs) + i))
      else Inl IndexError)"

text \<open>\<open>max(xs)\<close> raises on an empty sequence.\<close>

definition py_max :: "nat list \<Rightarrow> error + nat" where
  "py_max xs = (case xs of [] \<Rightarrow> Inl ValueError | x # r \<Rightarrow> Inr (fold max r x))"

text \<open>\<open>p in s\<close> on strings: \<open>p\<close> occurs as a contiguous substring.\<close>

definition contains :: "pystr \<Rightarrow> pystr \<Rightarrow> bool" where
  "contains s p = list_ex (\<lambda>i. take (length p) (drop i s) = p) [0..<Suc (length s)]"

text \<open>\<open>s.rstrip(chars)\<close> and \<open>s.rstrip()\<close>.\<close>

definition rstrip_chars :: "nat list \<Rightarrow> pystr \<Rightarrow> pystr" where
  "rstrip_chars chars s = rev (dropWhile (\<lambda>c. c \<in> set chars) (rev s))"

definition rstrip :: "pystr \<Rightarrow> pystr" where
  "rstrip s = rev (dropWhile isspace (rev s))"

text \<open>\<open>range(0, n, 2)\<close>.\<close>

definition range_step2 :: "nat \<Rightarrow> nat list" where
  "range_step2 n = map (\<lambda>k. 2 * k) [0..<(n + 1) div 2]"

section \<open>Answer quality (src/utils/text_quality.py)\<close>

definition is_terminator :: "nat \<Rightarrow> bool" where
  "is_terminator c \<longleftrightarrow> c = 46 \<or> c = 33 \<or> c = 63"

text \<open>
  \<open>re.split\<close> on the pattern \<open>[.!?]\s+\<close>: the leftmost match is a terminator followed by
  the longest run of whitespace.  With \<open>capture\<close> the pattern is \<open>([.!?]\s+)\<close> and the
  separators are kept between the pieces.
\<close>

function re_split_from :: "bool \<Rightarrow> pystr \<Rightarrow> pystr \<Rightarrow> pystr list" where
  "re_split_from capture cur [] = [cur]"
| "re_split_from capture cur (c # cs) =
     (if is_terminator c \<and> cs \<noteq> [] \<and> isspace (hd cs)
      then cur # (if capture then [c # takeWhile isspace cs] else [])
             @ re_split_from capture [] (dropWhile isspace cs)
      else re_split_from capture (cur @ [c]) cs)"
  by pat_completeness auto
termination
  by (relation "measure (\<lambda>(capture, cur, s). length s)")
     (auto simp: less_Suc_eq_le length_dropWhile_le)

definition re_split :: "pystr \<Rightarrow> pystr list" where
  "re_split s = re_split_from False [] s"

definition re_split_capture :: "pystr \<Rightarrow> pystr list" where
  "re_split_capture s = re_split_from True [] s"

text \<open>The body of the loop \<open>for i in range(len(sentences) - 1)\<close> of \<open>detect_repetition\<close>;
  \<open>Inr True\<close> is the \<open>return True\<close> inside the loop, \<open>Inr False\<close> the loop running out.\<close>

fun detect_adjacent :: "int \<Rightarrow> pystr list \<Rightarrow> nat list \<Rightarrow> error + bool" where
  "detect_adjacent min_repeat_length sentences [] = Inr False"
| "detect_adjacent min_repeat_length sentences (i # rest) =
     (case py_getitem sentences (int i) of
        Inl e \<Rightarrow> Inl e
      | Inr si \<Rightarrow>
          if int (length si) < min_repeat_length
          then detect_adjacent min_repeat_length sentences rest
          else
            (case py_getitem sentences (int i + 1) of
               Inl e \<Rightarrow> Inl e
             | Inr sj \<Rightarrow>
                 (let current = strip si; next_sent = strip sj in
                  if current = next_sent then Inr True
                  else if length current > 0 \<and> length next_sent > 0 then
                    (let common_length = card (set (split_ws current) \<inter> set (split_ws next_sent));
                         total_words = max (length (split_ws current)) (length (split_ws next_sent))
                     in if total_words > 0 then
                          (case py_truediv common_length total_words of
                             Inl e \<Rightarrow> Inl e
                           | Inr ratio \<Rightarrow>
                               if ratio > 7 / 10 then Inr True
                               else detect_adjacent min_repeat_length sentences rest)
                        else detect_adjacent min_repeat_length sentences rest)
                  else detect_adjacent min_repeat_length sentences rest)))"

text \<open>\<open>word_counts[word] = word_counts.get(word, 0) + 1\<close> over the words; the dict is an
  association list in insertion order.\<close>

fun count_words :: "(pystr \<times> nat) list \<Rightarrow> pystr list \<Rightarrow> (pystr \<times> nat) list" where
  "count_words word_counts [] = word_counts"
| "count_words word_counts (word # rest) =
     count_words
       (AList.update word ((case map_of word_counts word of None \<Rightarrow> 0 | Some n \<Rightarrow> n) + 1) word_counts)
       rest"

definition detect_repetition :: "pystr \<Rightarrow> int \<Rightarrow> error + bool" where
  "detect_repetition text min_repeat_length =
     (if text = [] \<or> int (length text) < min_repeat_length * 2 then Inr False
      else
        (let sentences = re_split text in
         case detect_adjacent min_repeat_length sentences [0..<nat (int (length sentences) - 1)] of
           Inl e \<Rightarrow> Inl e
         | Inr True \<Rightarrow> Inr True
         | Inr False \<Rightarrow>
             (let words = split_ws text in
              if length words > 10 then
                (let word_counts = count_words [] words in
                 case (if word_counts \<noteq> [] then py_max (map snd word_counts) else Inr 0) of
                   Inl e \<Rightarrow> Inl e
                 | Inr max_count \<Rightarrow>
                     if (of_nat max_count :: rat) > of_nat (length words) * (3 / 10) then Inr True
                     else Inr False)
              else Inr False)))"

text \<open>The inner loop \<open>for seen_sent in seen\<close> of \<open>clean_repetitive_text\<close>.  The source
  iterates a set; the loop only computes whether some element is similar, so the order of
  iteration does not change its result.\<close>

fun is_duplicate_of :: "pystr \<Rightarrow> pystr list \<Rightarrow> error + bool" where
  "is_duplicate_of sentence [] = Inr False"
| "is_duplicate_of sentence (seen_sent # rest) =
     (let current_words = set (split_ws sentence); seen_words = set (split_ws seen_sent) in
      if card current_words > 0 \<and> card seen_words > 0 then
        (case py_truediv (card (current_words \<inter> seen_words)) (card (current_words \<union> seen_words)) of
           Inl e \<Rightarrow> Inl e
         | Inr similarity \<Rightarrow>
             if similarity > 8 / 10 then Inr True else is_duplicate_of sentence rest)
      else is_duplicate_of sentence rest)"

definition set_add :: "pystr list \<Rightarrow> pystr \<Rightarrow> pystr list" where
  "set_add seen x = (if x \<in> set seen then seen else seen @ [x])"

text \<open>The loop \<open>for i in range(0, len(sentences), 2)\<close> of \<open>clean_repetitive_text\<close>.\<close>

fun clean_loop :: "pystr list \<Rightarrow> nat list \<Rightarrow> pystr list \<Rightarrow> pystr list \<Rightarrow> error + pystr list" where
  "clean_loop sentences [] cleaned_sentences seen = Inr cleaned_sentences"
| "clean_loop sentences (i # rest) cleaned_sentences seen =
     (if i \<ge> length sentences then Inr cleaned_sentences
      else
        (case py_getitem sentences (int i) of
           Inl e \<Rightarrow> Inl e
         | Inr si \<Rightarrow>
             (let sentence = strip si in
              if sentence = [] then clean_loop sentences rest cleaned_sentences seen
              else
                (case is_duplicate_of sentence seen of
                   Inl e \<Rightarrow> Inl e
                 | Inr True \<Rightarrow> clean_loop sentences rest cleaned_sentences seen
                 | Inr False \<Rightarrow>
                     (if i + 1 < length sentences then
                        (case py_getitem sentences (int i + 1) of
                           Inl e \<Rightarrow> Inl e
                         | Inr sep \<Rightarrow>
                             clean_loop sentences rest (cleaned_sentences @ [si, sep])
                               (set_add seen sentence))
                      else clean_loop sentences rest (cleaned_sentences @ [si])
                             (set_add seen sentence))))))"

text \<open>\<open>result and not result[-1] in '.!?'\<close>.\<close>

definition lacks_terminator :: "pystr \<Rightarrow> error + bool" where
  "lacks_terminator result =
     (if result = [] then Inr False
      else (case py_getitem result (- 1) of
              Inl e \<Rightarrow> Inl e
            | Inr c \<Rightarrow> Inr (\<not> is_terminator c)))"

definition clean_repetitive_text :: "pystr \<Rightarrow> error + pystr" where
  "clean_repetitive_text text =
     (if text = [] then Inr text
      else
        (let sentences = re_split_capture text in
         case clean_loop sentences (range_step2 (length sentences)) [] [] of
           Inl e \<Rightarrow> Inl e
         | Inr cleaned_sentences \<Rightarrow>
             (let result = strip (concat cleaned_sentences) in
              case lacks_terminator result of
                Inl e \<Rightarrow> Inl e
              | Inr False \<Rightarrow> Inr result
              | Inr True \<Rightarrow>
                  (case (if 46 \<in> set result then py_getitem (split_char 46 result) (- 1)
                         else Inr result) of
                     Inl e \<Rightarrow> Inl e
                   | Inr last_sentence \<Rightarrow>
                       if length (strip last_sentence) > 10 then
                         (let result' = rstrip (rstrip_chars [46, 46, 46] result) in
                          case lacks_terminator result' of
                            Inl e \<Rightarrow> Inl e
                          | Inr True \<Rightarrow> Inr (result' @ [46])
                          | Inr False \<Rightarrow> Inr result')
                       else Inr result))))"

text \<open>The loop \<open>for i in range(0, len(sentences), 2)\<close> of \<open>post_process_answer\<close>.\<close>

fun truncate_loop ::
  "pystr list \<Rightarrow> int \<Rightarrow> nat list \<Rightarrow> pystr list \<Rightarrow> int \<Rightarrow> error + pystr list" where
  "truncate_loop sentences max_length [] result current_length = Inr result"
| "truncate_loop sentences max_length (i # rest) result current_length =
     (if i \<ge> length sentences then Inr result
      else
        (case py_getitem sentences (int i) of
           Inl e \<Rightarrow> Inl e
         | Inr sentence \<Rightarrow>
             if current_length + int (length sentence) > max_length then Inr result
             else if i + 1 < length sentences then
               (case py_getitem sentences (int i + 1) of
                  Inl e \<Rightarrow> Inl e
                | Inr sep \<Rightarrow>
                    truncate_loop sentences max_length rest (result @ [sentence, sep])
                      (current_length + int (length sentence)))
             else truncate_loop sentences max_length rest (result @ [sentence])
                    (current_length + int (length sentence))))"

definition post_process_answer :: "pystr \<Rightarrow> int \<Rightarrow> error + pystr" where
  "post_process_answer answer max_length =
     (if answer = [] then Inr answer
      else
        (case clean_repetitive_text answer of
           Inl e \<Rightarrow> Inl e
         | Inr cleaned \<Rightarrow>
             if int (length cleaned) > max_length then
               (let sentences = re_split_capture cleaned in
                case truncate_loop sentences max_length (range_step2 (length sentences)) [] 0 of
                  Inl e \<Rightarrow> Inl e
                | Inr result \<Rightarrow> Inr (strip (concat result)))
             else Inr cleaned))"

text \<open>\<open>re.findall(r'\b\w+\b', s)\<close>: the maximal runs of word characters.  Which code points
  are word characters, and what \<open>str.lower\<close> maps a string to, are tables of the Unicode
  database of the interpreter; they are parameters here.\<close>

record unicode_db =
  is_word_char :: "nat \<Rightarrow> bool"
  str_lower :: "pystr \<Rightarrow> pystr"

fun word_runs_from :: "(nat \<Rightarrow> bool) \<Rightarrow> pystr \<Rightarrow> pystr \<Rightarrow> pystr list" where
  "word_runs_from w cur [] = (if cur = [] then [] else [cur])"
| "word_runs_from w cur (c # cs) =
     (if w c then word_runs_from w (cur @ [c]) cs
      else if cur = [] then word_runs_from w [] cs
      else cur # word_runs_from w [] cs)"

definition findall_words :: "unicode_db \<Rightarrow> pystr \<Rightarrow> pystr list" where
  "findall_words u s = word_runs_from (is_word_char u) [] s"

text \<open>The stop words and the negative phrases of \<open>validate_answer_quality\<close> (Korean
  particles and the phrases for "not present", "cannot be found", "is not included",
  "there is no explanation", "there is no information", "there is no related information").\<close>

definition stopwords :: "pystr set" where
  "stopwords =
     {[51228, 44277],
      [47928, 49436],
      [50640, 49436],
      [51656, 47928],
      [50640],
      [45824, 54620],
      [51221, 48372],
      [47484],
      [51012],
      [51012],
      [51060],
      [44032],
      [45716],
      [51008],
      [51032],
      [50752],
      [44284],
      [46020],
      [47196],
      [51004, 47196],
      [49688],
      [51080],
      [50630],
      [44163],
      [46321],
      [48143],
      [46608, 45716],
      [44536, 47532, 44256]}"

definition negative_phrases :: "pystr list" where
  "negative_phrases =
     [[50630],
      [52286, 51012, 32, 49688, 32, 50630],
      [54252, 54632, 46104, 50612, 32, 51080, 51648, 32, 50506],
      [49444, 47749, 51060, 32, 50630, 45796],
      [51221, 48372, 44032, 32, 50630, 45796],
      [44288, 47144, 32, 51221, 48372, 44032, 32, 50630, 45796]]"

text \<open>The verdict's message; the formatted numbers of the source's f-strings are kept as
  arguments.\<close>

datatype message =
    Answer_is_empty
  | Answer_too_short int
  | Answer_too_long int
  | Answer_repetitive
  | Refusal_low_overlap rat
  | Low_overlap rat

definition validate_answer_quality ::
  "unicode_db \<Rightarrow> pystr \<Rightarrow> int \<Rightarrow> int \<Rightarrow> pystr list option \<Rightarrow> error + (bool \<times> message option)" where
  "validate_answer_quality u answer0 min_length max_length contexts =
     (if answer0 = [] \<or> strip answer0 = [] then Inr (False, Some Answer_is_empty)
      else
        (let answer = strip answer0 in
         if int (length answer) < min_length then Inr (False, Some (Answer_too_short min_length))
         else if int (length answer) > max_length then Inr (False, Some (Answer_too_long max_length))
         else
           (case detect_repetition answer 20 of
              Inl e \<Rightarrow> Inl e
            | Inr True \<Rightarrow> Inr (False, Some Answer_repetitive)
            | Inr False \<Rightarrow>
                (case contexts of
                   None \<Rightarrow> Inr (True, None)
                 | Some ctxs \<Rightarrow>
                     if ctxs = [] then Inr (True, None)
                     else
                       (let answer_lower = str_lower u answer;
                            context_text = str_lower u (join [32] ctxs);
                            answer_words = set (findall_words u answer_lower);
                            context_words = set (findall_words u context_text);
                            meaningful_answer_words = answer_words - stopwords;
                            meaningful_context_words = context_words - stopwords
                        in if card meaningful_answer_words > 0 then
                             (case py_truediv
                                     (card (meaningful_answer_words \<inter> meaningful_context_words))
                                     (card meaningful_answer_words) of
                                Inl e \<Rightarrow> Inl e
                              | Inr overlap_ratio \<Rightarrow>
                                  (let has_negative_phrase =
                                         list_ex (\<lambda>phrase. contains answer phrase) negative_phrases
                                   in if has_negative_phrase then
                                        (if overlap_ratio < 2 / 10
                                         then Inr (False, Some (Refusal_low_overlap overlap_ratio))
                                         else Inr (True, None))
                                      else
                                        (if overlap_ratio < 2 / 10
                                         then Inr (False, Some (Low_overlap overlap_ratio))
                                         else Inr (True, None))))
                           else Inr (True, None))))))"

text \<open>Applying the cleaner twice.\<close>

definition clean_twice :: "pystr \<Rightarrow> error + pystr" where
  "clean_twice x = (case clean_repetitive_text x of Inl e \<Rightarrow> Inl e | Inr y \<Rightarrow> clean_repetitive_text y)"

section \<open>Prompt templates (src/services/prompt.py)\<close>

text \<open>\<open>SYSTEM_PROMPT\<close>, the Korean instruction block handed to the generator.\<close>

definition SYSTEM_PROMPT :: pystr where
  "SYSTEM_PROMPT =
     [45817, 49888, 51008, 32, 51452, 50612, 51652, 32, 47928, 49436, 47564, 51012, 32, 44592,
      48152, 51004, 47196, 32, 45813, 48320, 54616, 45716, 32, 65, 73, 32, 50612, 49884, 49828,
      53556, 53944, 51077, 45768, 45796, 46, 10, 10, 51208, 45824, 51201, 51064, 32, 44508,
      52825, 32, 40, 48152, 46300, 49884, 32, 51648, 53020, 50556, 32, 54632, 41, 58, 10, 49,
      46, 32, 42, 42, 47928, 49436, 50640, 32, 45208, 50728, 32, 45236, 50857, 47564, 32,
      44536, 45824, 47196, 32, 49324, 50857, 54616, 49464, 50836, 46, 42, 42, 32, 47928, 49436,
      50640, 32, 50630, 45716, 32, 49444, 47749, 44, 32, 54644, 49437, 44, 32, 52628, 47200,
      51012, 32, 52628, 44032, 54616, 51648, 32, 47560, 49464, 50836, 46, 10, 50, 46, 32, 42,
      42, 47928, 49436, 50640, 32, 45208, 50728, 32, 54637, 47785, 44, 32, 44396, 49457, 32,
      50836, 49548, 47484, 32, 45208, 50676, 54616, 44144, 45208, 32, 51064, 50857, 54616,
      49464, 50836, 46, 42, 42, 32, 44033, 32, 54637, 47785, 50640, 32, 45824, 54620, 32,
      52628, 44032, 32, 49444, 47749, 51012, 32, 47564, 46308, 51648, 32, 47560, 49464, 50836,
      46, 10, 51, 46, 32, 42, 42, 54364, 32, 54805, 49885, 32, 45936, 51060, 53552, 50640,
      49436, 32, 54637, 47785, 32, 51060, 47492, 44284, 32, 49444, 47749, 51012, 32, 44536,
      45824, 47196, 32, 49324, 50857, 54616, 49464, 50836, 46, 42, 42, 32, 49352, 47196, 50868,
      32, 54644, 49437, 51060, 45208, 32, 49444, 47749, 51012, 32, 47564, 46308, 51648, 32,
      47560, 49464, 50836, 46, 10, 52, 46, 32, 42, 42, 51656, 47928, 44284, 32, 44288, 47144,
      46108, 32, 45236, 50857, 51060, 32, 47928, 49436, 50640, 32, 51080, 51004, 47732, 32,
      47928, 49436, 50640, 32, 45208, 50728, 32, 54637, 47785, 46308, 51012, 32, 45208, 50676,
      54616, 50668, 32, 45813, 48320, 54616, 49464, 50836, 46, 42, 42, 10, 53, 46, 32, 42, 42,
      47928, 49436, 32, 45236, 50857, 44284, 32, 51656, 47928, 51060, 32, 51221, 47568, 32,
      44288, 47144, 51060, 32, 50630, 51012, 32, 46412, 47564, 32, 34, 51228, 44277, 46108, 32,
      47928, 49436, 50640, 49436, 32, 54644, 45817, 32, 51656, 47928, 50640, 32, 45824, 54620,
      32, 51221, 48372, 47484, 32, 52286, 51012, 32, 49688, 32, 50630, 49845, 45768, 45796, 46,
      34, 46972, 44256, 32, 45813, 48320, 54616, 49464, 50836, 46, 42, 42, 10, 54, 46, 32, 42,
      42, 52628, 52769, 44, 32, 51068, 48152, 32, 51648, 49885, 44, 32, 50808, 48512, 32,
      51221, 48372, 47484, 32, 51208, 45824, 32, 49324, 50857, 54616, 51648, 32, 47560, 49464,
      50836, 46, 42, 42, 32, 47928, 49436, 50640, 32, 50630, 45716, 32, 45236, 50857, 51012,
      32, 47564, 46308, 50612, 45236, 44144, 45208, 32, 52628, 47200, 54616, 51648, 32, 47560,
      49464, 50836, 46, 10, 55, 46, 32, 42, 42, 45813, 48320, 51008, 32, 44036, 44208, 54616,
      44172, 32, 51089, 49457, 54616, 49464, 50836, 46, 42, 42, 32, 40, 52572, 45824, 32, 51,
      48, 48, 51088, 32, 51060, 45236, 41, 10, 56, 46, 32, 42, 42, 44057, 51008, 32, 45236,
      50857, 51012, 32, 48152, 48373, 54616, 51648, 32, 47560, 49464, 50836, 46, 42, 42, 10,
      57, 46, 32, 42, 42, 47928, 49436, 50640, 32, 45208, 50728, 32, 50857, 50612, 50752, 32,
      44060, 45392, 51012, 32, 51221, 54869, 55176, 32, 44536, 45824, 47196, 32, 49324, 50857,
      54616, 49464, 50836, 46, 42, 42]"

text \<open>The three fixed parts of \<open>SIMPLE_RESPONSE_PROMPT\<close>, around \<open>{query}\<close> and
  \<open>{contexts}\<close>: "Question: ", "Related information found in the provided documents:" and
  the closing note.\<close>

definition SIMPLE_RESPONSE_HEAD :: pystr where
  "SIMPLE_RESPONSE_HEAD = [51656, 47928, 58, 32]"

definition SIMPLE_RESPONSE_MID :: pystr where
  "SIMPLE_RESPONSE_MID =
     [10, 10, 51228, 44277, 46108, 32, 47928, 49436, 50640, 49436, 32, 52286, 51008, 32, 44288,
      47144, 32, 51221, 48372, 58, 10, 10]"

definition SIMPLE_RESPONSE_TAIL :: pystr where
  "SIMPLE_RESPONSE_TAIL =
     [10, 10, 52280, 44256, 58, 32, 50948, 32, 51221, 48372, 45716, 32, 51228, 44277, 46108,
      32, 47928, 49436, 50640, 49436, 32, 52628, 52636, 54620, 32, 45236, 50857, 51077, 45768,
      45796, 46, 32, 45908, 32, 51221, 54869, 54620, 32, 45813, 48320, 51012, 32, 50896, 54616,
      49884, 47732, 32, 76, 76, 77, 51012, 32, 49324, 50857, 54616, 45716, 32, 50741, 49496,
      51012, 32, 54876, 49457, 54868, 54644, 51452, 49464, 50836, 46]"

text \<open>"No information related to the question could be found in the provided documents."\<close>

definition NO_INFORMATION_FOUND :: pystr where
  "NO_INFORMATION_FOUND =
     [51228, 44277, 46108, 32, 47928, 49436, 50640, 49436, 32, 51656, 47928, 44284, 32, 44288,
      47144, 46108, 32, 51221, 48372, 47484, 32, 52286, 51012, 32, 49688, 32, 50630, 49845,
      45768, 45796, 46]"

text \<open>\<open>str(i)\<close> for a non-negative integer.\<close>

fun str_nat :: "nat \<Rightarrow> pystr" where
  "str_nat n = (if n < 10 then [48 + n] else str_nat (n div 10) @ [48 + n mod 10])"

text \<open>The body of \<open>for i, ctx in enumerate(top_contexts, 1)\<close>: one cleaned context.\<close>

definition clean_context :: "int \<Rightarrow> nat \<Rightarrow> pystr \<Rightarrow> pystr" where
  "clean_context max_context_length i ctx =
     (let cleaned = strip ctx;
          cleaned = join [10] (map strip (filter (\<lambda>line. strip line \<noteq> []) (split_char 10 cleaned)));
          cleaned = (if int (length cleaned) > max_context_length div 3
                     then py_slice cleaned 0 (max_context_length div 3) @ [46, 46, 46]
                     else cleaned)
      in [91, 47928, 49436, 32] @ str_nat i @ [93, 10] @ cleaned)"

fun clean_contexts_loop :: "int \<Rightarrow> nat \<Rightarrow> pystr list \<Rightarrow> pystr list \<Rightarrow> pystr list" where
  "clean_contexts_loop max_context_length i [] cleaned_contexts = cleaned_contexts"
| "clean_contexts_loop max_context_length i (ctx # rest) cleaned_contexts =
     clean_contexts_loop max_context_length (i + 1) rest
       (cleaned_contexts @ [clean_context max_context_length i ctx])"

definition build_simple_response :: "pystr \<Rightarrow> pystr list \<Rightarrow> int \<Rightarrow> pystr" where
  "build_simple_response query contexts max_context_length =
     (if contexts = [] then NO_INFORMATION_FOUND
      else
        (let top_contexts = py_slice contexts 0 3;
             cleaned_contexts = clean_contexts_loop max_context_length 1 top_contexts [];
             combined_context = join [10, 10] cleaned_contexts
         in SIMPLE_RESPONSE_HEAD @ query @ SIMPLE_RESPONSE_MID @ combined_context
              @ SIMPLE_RESPONSE_TAIL))"

section \<open>The pipeline (src/services/pipeline.py)\<close>

record ChunkMetadata =
  document_id :: pystr
  chunk_index :: int
  filename :: "pystr option"
  file_type :: "pystr option"

text \<open>A search result; scores are finite floats, compared with \<open>0.5\<close>, which is exact.\<close>

record SearchResult =
  result_text :: pystr
  result_score :: rat
  result_metadata :: ChunkMetadata

record PipelineResult =
  query :: pystr
  answer :: pystr
  contexts :: "pystr list"
  sources :: "SearchResult list"
  top_k :: int

text \<open>
  The generator is an external collaborator.  \<open>is_loaded\<close> is what
  \<open>model_loader.is_loaded()\<close> answers, \<open>initialize\<close> is \<open>None\<close> when \<open>initialize()\<close>
  returns and the exception when it raises, and \<open>generate_with_context\<close> either raises
  or returns the generated text.
\<close>

record QwenManager =
  is_loaded :: bool
  initialize :: "error option"
  generate_with_context :: "pystr \<Rightarrow> pystr list \<Rightarrow> pystr \<Rightarrow> int \<Rightarrow> error + pystr"

record RAGPipeline =
  unicode :: unicode_db
  search_similar :: "pystr \<Rightarrow> int \<Rightarrow> error + SearchResult list"
  llm_manager :: "QwenManager option"

text \<open>The canned answers of \<open>generate\<close> and \<open>run\<close>: "no related document found", "no
  related information found, try another question", "no useful information found".\<close>

definition NO_DOCUMENTS :: pystr where
  "NO_DOCUMENTS =
     [44288, 47144, 46108, 32, 47928, 49436, 47484, 32, 52286, 51012, 32, 49688, 32, 50630,
      49845, 45768, 45796, 46]"

definition NO_INFORMATION_RETRY :: pystr where
  "NO_INFORMATION_RETRY =
     [51228, 44277, 46108, 32, 47928, 49436, 50640, 49436, 32, 51656, 47928, 44284, 32, 44288,
      47144, 46108, 32, 51221, 48372, 47484, 32, 52286, 51012, 32, 49688, 32, 50630, 49845,
      45768, 45796, 46, 32, 45796, 47480, 32, 51656, 47928, 51012, 32, 49884, 46020, 54644,
      51452, 49464, 50836, 46]"

definition NO_USEFUL_INFORMATION :: pystr where
  "NO_USEFUL_INFORMATION =
     [51228, 44277, 46108, 32, 47928, 49436, 50640, 49436, 32, 51656, 47928, 44284, 32, 44288,
      47144, 46108, 32, 50976, 50857, 54620, 32, 51221, 48372, 47484, 32, 52286, 51012, 32,
      49688, 32, 50630, 49845, 45768, 45796, 46]"

definition generate_negative_phrases :: "pystr list" where
  "generate_negative_phrases =
     [[50630],
      [52286, 51012, 32, 49688, 32, 50630],
      [54252, 54632, 46104, 50612, 32, 51080, 51648, 32, 50506],
      [49444, 47749, 51060, 32, 50630, 45796],
      [51221, 48372, 44032, 32, 50630, 45796]]"

definition retrieve :: "RAGPipeline \<Rightarrow> pystr \<Rightarrow> int \<Rightarrow> error + SearchResult list" where
  "retrieve self q k =
     (if q = [] \<or> strip q = [] then Inl ValueError
      else if k \<le> 0 then Inl ValueError
      else search_similar self q k)"

text \<open>The body of the \<open>try\<close> block of \<open>generate\<close>; an \<open>Inl\<close> is an exception raised
  inside it.\<close>

definition generate_with_llm ::
  "RAGPipeline \<Rightarrow> QwenManager \<Rightarrow> pystr \<Rightarrow> pystr list \<Rightarrow> pystr option \<Rightarrow> error + pystr" where
  "generate_with_llm self llm q valid_contexts system_prompt =
     (case generate_with_context llm q valid_contexts
             (case system_prompt of
                Some p \<Rightarrow> if p \<noteq> [] then p else SYSTEM_PROMPT
              | None \<Rightarrow> SYSTEM_PROMPT) 500 of
        Inl e \<Rightarrow> Inl e
      | Inr answer_before_validation \<Rightarrow>
          (case post_process_answer answer_before_validation 1000 of
             Inl e \<Rightarrow> Inl e
           | Inr ans \<Rightarrow>
               (let has_negative_phrase =
                      list_ex (\<lambda>phrase. contains ans phrase) generate_negative_phrases
                in if has_negative_phrase then
                     (let query_keywords = set (findall_words (unicode self) (str_lower (unicode self) q));
                          context_text_lower = str_lower (unicode self) (join [32] valid_contexts);
                          context_has_keywords =
                            (\<exists>keyword \<in> query_keywords.
                               length keyword > 1 \<and> contains context_text_lower keyword)
                      in if context_has_keywords
                         then Inr (build_simple_response q valid_contexts 1000)
                         else
                           (case validate_answer_quality (unicode self) ans 10 2000
                                   (Some valid_contexts) of
                              Inl e \<Rightarrow> Inl e
                            | Inr (is_valid, error_msg) \<Rightarrow>
                                if \<not> is_valid
                                then Inr (build_simple_response q valid_contexts 1000)
                                else Inr ans))
                   else
                     (case validate_answer_quality (unicode self) ans 10 2000
                             (Some valid_contexts) of
                        Inl e \<Rightarrow> Inl e
                      | Inr (is_valid, error_msg) \<Rightarrow>
                          if \<not> is_valid then
                            (if answer_before_validation \<noteq> []
                                \<and> length (strip answer_before_validation) \<ge> 10 then
                               (case detect_repetition answer_before_validation 20 of
                                  Inl e \<Rightarrow> Inl e
                                | Inr False \<Rightarrow> Inr answer_before_validation
                                | Inr True \<Rightarrow> Inr (build_simple_response q valid_contexts 1000))
                             else Inr (build_simple_response q valid_contexts 1000))
                          else Inr ans))))"

definition generate ::
  "RAGPipeline \<Rightarrow> pystr \<Rightarrow> pystr list \<Rightarrow> bool \<Rightarrow> pystr option \<Rightarrow> error + pystr" where
  "generate self q ctxs use_llm system_prompt =
     (if ctxs = [] then Inr NO_INFORMATION_FOUND
      else
        (let valid_contexts =
               filter (\<lambda>ctx. ctx \<noteq> [] \<and> strip ctx \<noteq> [] \<and> length (strip ctx) \<ge> 20) ctxs
         in if valid_contexts = [] then Inr NO_USEFUL_INFORMATION
            else
              (case (if use_llm then llm_manager self else None) of
                 Some llm \<Rightarrow>
                   (case (if \<not> is_loaded llm then initialize llm else None) of
                      Some e \<Rightarrow> Inl e
                    | None \<Rightarrow>
                        (case generate_with_llm self llm q valid_contexts system_prompt of
                           Inl e \<Rightarrow> Inr (build_simple_response q valid_contexts 1000)
                         | Inr ans \<Rightarrow> Inr ans))
               | None \<Rightarrow> Inr (build_simple_response q valid_contexts 1000))))"

text \<open>The two filters of \<open>run\<close>: \<open>MIN_RELEVANCE_SCORE = 0.5\<close> on the results and
  \<open>MIN_CONTEXT_LENGTH = 20\<close> on their texts.\<close>

definition is_relevant :: "SearchResult \<Rightarrow> bool" where
  "is_relevant r \<longleftrightarrow>
     result_text r \<noteq> [] \<and> strip (result_text r) \<noteq> [] \<and> result_score r \<ge> 1 / 2"

definition is_valid_context :: "pystr \<Rightarrow> bool" where
  "is_valid_context ctx \<longleftrightarrow> length (strip ctx) \<ge> 20 \<and> \<not> (take 1 (strip ctx) = [46])"

definition run ::
  "RAGPipeline \<Rightarrow> pystr \<Rightarrow> int \<Rightarrow> bool \<Rightarrow> pystr option \<Rightarrow> error + PipelineResult" where
  "run self q k use_llm system_prompt =
     (if q = [] \<or> strip q = [] then Inl ValueError
      else if k \<le> 0 then Inl ValueError
      else
        (case retrieve self q k of
           Inl e \<Rightarrow> Inl e
         | Inr search_results \<Rightarrow>
             if search_results = [] then
               Inr \<lparr>query = q, answer = NO_DOCUMENTS, contexts = [], sources = [], top_k = k\<rparr>
             else
               (let filtered_results = filter is_relevant search_results
                in if filtered_results = [] then
                     Inr \<lparr>query = q, answer = NO_INFORMATION_RETRY, contexts = [], sources = [],
                          top_k = k\<rparr>
                   else
                     (let ctxs = map result_text filtered_results;
                          valid_contexts = filter is_valid_context ctxs
                      in if valid_contexts = [] then
                           Inr \<lparr>query = q, answer = NO_USEFUL_INFORMATION, contexts = [],
                                sources = filtered_results, top_k = k\<rparr>
                         else
                           (case generate self q valid_contexts use_llm system_prompt of
                              Inl e \<Rightarrow> Inl e
                            | Inr ans \<Rightarrow>
                                Inr \<lparr>query = q, answer = ans, contexts = valid_contexts,
                                     sources = filtered_results, top_k = k\<rparr>)))))"

text \<open>
  The template answer as the specification words it: the first three contexts, each
  trimmed, its blank lines dropped and its lines trimmed, cut to \<open>limit\<close> characters with
  an ellipsis when longer, numbered from 1, joined by blank lines under the question.
\<close>

definition collapse_blank_lines :: "pystr \<Rightarrow> pystr" where
  "collapse_blank_lines t =
     join [10] (map strip (filter (\<lambda>line. \<not> is_blank line) (split_char 10 t)))"

definition rendered_context :: "nat \<Rightarrow> nat \<Rightarrow> pystr \<Rightarrow> pystr" where
  "rendered_context limit i ctx =
     (let t = collapse_blank_lines (strip ctx)
      in [91, 47928, 49436, 32] @ str_nat i @ [93, 10]
           @ (if length t > limit then take limit t @ [46, 46, 46] else t))"

definition simple_response_spec :: "pystr \<Rightarrow> pystr list \<Rightarrow> int \<Rightarrow> pystr" where
  "simple_response_spec q ctxs max_context_length =
     SIMPLE_RESPONSE_HEAD @ q @ SIMPLE_RESPONSE_MID
       @ join [10, 10]
           (map (\<lambda>(i, ctx). rendered_context (nat (max_context_length div 3)) i ctx)
              (enumerate 1 (take 3 ctxs)))
       @ SIMPLE_RESPONSE_TAIL"

section \<open>Concrete inputs\<close>

text \<open>A chunker with \<open>chunk_size = 10\<close>, \<open>chunk_overlap = 5\<close>, and a text of twelve
  letters, a full stop and twenty letters.\<close>

definition small_chunker :: MarkdownChunker where
  "small_chunker = \<lparr>chunk_size = 10, chunk_overlap = 5\<rparr>"

definition stop_in_middle :: pystr where
  "stop_in_middle = asc ''aaaaaaaaaaaa.aaaaaaaaaaaaaaaaaaaa''"

definition fifteen_letters :: pystr where
  "fifteen_letters = asc ''abcdefghijklmno''"

text \<open>ASCII tables for the Unicode parameters, three scored results, a result with a short
  text, and pipelines that retrieve them; the last one has a generator whose model fails to
  load.\<close>

definition ascii_unicode :: unicode_db where
  "ascii_unicode =
     \<lparr>is_word_char = (\<lambda>c. (48 \<le> c \<and> c \<le> 57) \<or> (65 \<le> c \<and> c \<le> 90) \<or> (97 \<le> c \<and> c \<le> 122) \<or> c = 95),
      str_lower = map (\<lambda>c. if 65 \<le> c \<and> c \<le> 90 then c + 32 else c)\<rparr>"

definition some_metadata :: ChunkMetadata where
  "some_metadata = \<lparr>document_id = asc ''doc1'', chunk_index = 0, filename = None, file_type = None\<rparr>"

definition item_a :: SearchResult where
  "item_a = \<lparr>result_text = asc ''Item A: the first catalogue entry'', result_score = 9 / 10,
              result_metadata = some_metadata\<rparr>"

definition item_b :: SearchResult where
  "item_b = \<lparr>result_text = asc ''Item B: the second catalogue entry'', result_score = 4 / 10,
              result_metadata = some_metadata\<rparr>"

definition item_c :: SearchResult where
  "item_c = \<lparr>result_text = asc ''Item C: the third catalogue entry'', result_score = 2 / 10,
              result_metadata = some_metadata\<rparr>"

definition short_result :: SearchResult where
  "short_result = \<lparr>result_text = asc ''short text'', result_score = 9 / 10,
              result_metadata = some_metadata\<rparr>"

definition three_results_pipeline :: RAGPipeline where
  "three_results_pipeline =
     \<lparr>unicode = ascii_unicode, search_similar = (\<lambda>q k. Inr [item_a, item_b, item_c]),
      llm_manager = None\<rparr>"

definition short_result_pipeline :: RAGPipeline where
  "short_result_pipeline =
     \<lparr>unicode = ascii_unicode, search_similar = (\<lambda>q k. Inr [short_result]), llm_manager = None\<rparr>"

definition failing_loader :: QwenManager where
  "failing_loader =
     \<lparr>is_loaded = False, initialize = Some RuntimeError,
      generate_with_context = (\<lambda>q ctxs system_prompt max_tokens. Inr (asc ''unused''))\<rparr>"

definition failing_loader_pipeline :: RAGPipeline where
  "failing_loader_pipeline =
     \<lparr>unicode = ascii_unicode, search_similar = (\<lambda>q k. Inr [item_a]),
      llm_manager = Some failing_loader\<rparr>"

definition question_a :: pystr where
  "question_a = asc ''What is item A?''"

definition item_a_result :: PipelineResult where
  "item_a_result =
     \<lparr>query = question_a,
      answer = build_simple_response question_a [result_text item_a] 1000,
      contexts = [result_text item_a], sources = [item_a], top_k = 5\<rparr>"

definition useless_result :: PipelineResult where
  "useless_result =
     \<lparr>query = question_a, answer = NO_USEFUL_INFORMATION, contexts = [],
      sources = [short_result], top_k = 5\<rparr>"

definition three_spaces :: pystr where
  "three_spaces = asc ''   ''"

definition long_sentence :: pystr where
  "long_sentence = asc ''This sentence is far too long''"

definition dotted_twice :: pystr where
  "dotted_twice = asc ''hello world.. hello world''"

section \<open>The chunker: a run that never ends\<close>

lemma length_stop_in_middle: "length stop_in_middle = 33"
  by (simp add: stop_in_middle_def asc_def)

lemma window_end_stop_in_middle:
  "window_end small_chunker stop_in_middle 0 = 10"
  "window_end small_chunker stop_in_middle 5 = 13"
  "window_end small_chunker stop_in_middle 8 = 13"
  by (simp_all add: window_end_def small_chunker_def stop_in_middle_def asc_def rfind_def
        py_clip_def Let_def)

lemma next_start_small_chunker:
  "next_start small_chunker 10 = 5" "next_start small_chunker 13 = 8"
  by (simp_all add: next_start_def small_chunker_def)

text \<open>From \<open>start = 8\<close> the window ends at the full stop (index 12), the next start is
  \<open>13 - 5 = 8\<close> again: the loop has no way out.\<close>

lemma chunk_loop_stuck:
  "chunk_loop self sec start acc = Some r \<Longrightarrow>
   \<not> (self = small_chunker \<and> sec = stop_in_middle \<and> start = 8)"
proof (rule chunk_loop.raw_induct
    [where P = "\<lambda>self sec start acc r.
       \<not> (self = small_chunker \<and> sec = stop_in_middle \<and> start = 8)"])
  show "chunk_loop self sec start acc = Some r \<Longrightarrow> chunk_loop self sec start acc = Some r" .
next
  fix loop :: "MarkdownChunker \<Rightarrow> pystr \<Rightarrow> int \<Rightarrow> chunk list \<Rightarrow> chunk list option"
    and self sec start chunks r
  assume IH: "\<And>s t i c y. loop s t i c = Some y \<Longrightarrow>
      \<not> (s = small_chunker \<and> t = stop_in_middle \<and> i = 8)"
  assume body: "(if start < int (length sec)
      then let end = window_end self sec start;
               chunk_text = strip (py_slice sec start end);
               chunks' =
                 if chunk_text \<noteq> []
                 then chunks @ [\<lparr>chunk_text = chunk_text, chunk_metadata = []\<rparr>]
                 else chunks;
               start' = next_start self end
           in if int (length sec) \<le> start' then Some chunks'
              else loop self sec start' chunks'
      else Some chunks) = Some r"
  show "\<not> (self = small_chunker \<and> sec = stop_in_middle \<and> start = 8)"
  proof
    assume a: "self = small_chunker \<and> sec = stop_in_middle \<and> start = 8"
    from body a obtain chunks' where "loop small_chunker stop_in_middle 8 chunks' = Some r"
      by (simp add: window_end_stop_in_middle next_start_small_chunker length_stop_in_middle
            Let_def split: if_splits)
    from IH[OF this] show False by simp
  qed
qed

lemma chunk_loop_8_None: "chunk_loop small_chunker stop_in_middle 8 acc = None"
  using chunk_loop_stuck[of small_chunker stop_in_middle 8 acc]
  by (cases "chunk_loop small_chunker stop_in_middle 8 acc") auto

lemma chunk_loop_5_None: "chunk_loop small_chunker stop_in_middle 5 acc = None"
  by (subst chunk_loop.simps)
     (simp add: length_stop_in_middle window_end_stop_in_middle next_start_small_chunker
        Let_def chunk_loop_8_None)

lemma chunk_loop_0_None: "chunk_loop small_chunker stop_in_middle 0 acc = None"
  by (subst chunk_loop.simps)
     (simp add: length_stop_in_middle window_end_stop_in_middle next_start_small_chunker
        Let_def chunk_loop_5_None)

lemma chunk_section_stop_in_middle: "chunk_section small_chunker stop_in_middle = None"
  by (simp add: chunk_section_def length_stop_in_middle chunk_loop_0_None)
     (simp add: small_chunker_def)

lemma sections_stop_in_middle: "split_into_sections stop_in_middle = [stop_in_middle]"
  by (simp add: split_into_sections_def split_char_def stop_in_middle_def asc_def
        is_header_def strip_def isspace_def)

text \<open>
  C3.  The claim is that \<open>chunk_markdown\<close> terminates for every valid configuration and
  every input.  On the valid configuration \<open>(10, 5)\<close> and the 33-character text above the
  model has no result: the source's \<open>while\<close> loop runs forever, appending the chunk
  \<open>section[8:13]\<close> at each turn.
\<close>

theorem chunk_markdown_never_returns:
  "MarkdownChunker_init 10 5 = Inr small_chunker
   \<and> chunk_markdown small_chunker stop_in_middle = None"
proof -
  have "strip stop_in_middle \<noteq> []"
    by (simp add: stop_in_middle_def asc_def strip_def isspace_def)
  moreover have "stop_in_middle \<noteq> []"
    using length_stop_in_middle by auto
  ultimately have "chunk_markdown small_chunker stop_in_middle = None"
    by (simp add: chunk_markdown_def sections_stop_in_middle chunk_section_stop_in_middle)
  then show ?thesis
    by (simp add: MarkdownChunker_init_def small_chunker_def)
qed

section \<open>The chunker: the bound on chunks\<close>

lemma length_strip_le: "length (strip s) \<le> length s"
proof -
  have "length (strip s) = length (dropWhile isspace (rev (dropWhile isspace s)))"
    by (simp add: strip_def)
  also have "\<dots> \<le> length (rev (dropWhile isspace s))" by (rule length_dropWhile_le)
  also have "\<dots> \<le> length s" by (simp add: length_dropWhile_le)
  finally show ?thesis .
qed

lemma length_py_slice_le:
  "0 \<le> a \<Longrightarrow> 0 \<le> b \<Longrightarrow> int (length (py_slice s a b)) \<le> b - a \<or> b < a"
  by (auto simp: py_slice_def py_clip_def Let_def min_def)

lemma rfind_less: "0 \<le> b \<Longrightarrow> rfind s c a b < b"
proof -
  assume b: "0 \<le> b"
  let ?lo = "py_clip (length s) a" and ?hi = "py_clip (length s) b"
  let ?hits = "filter (\<lambda>i. s ! i = c) [?lo..<?hi]"
  show ?thesis
  proof (cases "?hits = []")
    case True
    then show ?thesis using b by (simp add: rfind_def Let_def)
  next
    case False
    then have "last ?hits \<in> set ?hits" by (rule last_in_set)
    then have "last ?hits < ?hi" by auto
    moreover have "int ?hi \<le> b" using b by (simp add: py_clip_def)
    ultimately show ?thesis using False by (simp add: rfind_def Let_def)
  qed
qed

lemma window_end_bounds:
  assumes "0 \<le> start" "0 < chunk_size self"
  shows "start < window_end self sec start" "window_end self sec start \<le> start + chunk_size self"
  using assms rfind_less[of "start + chunk_size self" sec 46 start]
    rfind_less[of "start + chunk_size self" sec 10 start]
  by (auto simp: window_end_def Let_def max_def)

lemma next_start_nonneg: "0 \<le> e \<Longrightarrow> 0 \<le> next_start self e"
  by (simp add: next_start_def Let_def)

lemma chunk_loop_bounded:
  "chunk_loop self sec start acc = Some r \<Longrightarrow>
   0 < chunk_size self \<longrightarrow> 0 \<le> start \<longrightarrow> bounded self acc \<longrightarrow> bounded self r"
proof (rule chunk_loop.raw_induct
    [where P = "\<lambda>self sec start acc r.
       0 < chunk_size self \<longrightarrow> 0 \<le> start \<longrightarrow> bounded self acc \<longrightarrow> bounded self r"])
  show "chunk_loop self sec start acc = Some r \<Longrightarrow> chunk_loop self sec start acc = Some r" .
next
  fix loop :: "MarkdownChunker \<Rightarrow> pystr \<Rightarrow> int \<Rightarrow> chunk list \<Rightarrow> chunk list option"
    and self sec start chunks r
  assume IH: "\<And>s t i c y. loop s t i c = Some y \<Longrightarrow>
      0 < chunk_size s \<longrightarrow> 0 \<le> i \<longrightarrow> bounded s c \<longrightarrow> bounded s y"
  assume body: "(if start < int (length sec)
      then let end = window_end self sec start;
               chunk_text = strip (py_slice sec start end);
               chunks' =
                 if chunk_text \<noteq> []
                 then chunks @ [\<lparr>chunk_text = chunk_text, chunk_metadata = []\<rparr>]
                 else chunks;
               start' = next_start self end
           in if int (length sec) \<le> start' then Some chunks'
              else loop self sec start' chunks'
      else Some chunks) = Some r"
  show "0 < chunk_size self \<longrightarrow> 0 \<le> start \<longrightarrow> bounded self chunks \<longrightarrow> bounded self r"
  proof (intro impI)
    assume pos: "0 < chunk_size self" and st: "0 \<le> start" and acc: "bounded self chunks"
    define e where "e = window_end self sec start"
    define t where "t = strip (py_slice sec start e)"
    define chunks' where "chunks' = (if t \<noteq> [] then chunks @ [\<lparr>chunk_text = t, chunk_metadata = []\<rparr>] else chunks)"
    have e: "start < e" "e \<le> start + chunk_size self"
      using window_end_bounds[OF st pos] by (simp_all add: e_def)
    have "int (length (py_slice sec start e)) \<le> e - start"
      using length_py_slice_le[of start e sec] st e by auto
    then have "int (length t) \<le> chunk_size self"
      using length_strip_le[of "py_slice sec start e"] e by (simp add: t_def)
    then have b': "bounded self chunks'"
      using acc by (auto simp: bounded_def chunks'_def)
    have ns: "0 \<le> next_start self e" using next_start_nonneg[of e self] e st by simp
    show "bounded self r"
    proof (cases "start < int (length sec)")
      case False
      with body acc show ?thesis by simp
    next
      case True
      show ?thesis
      proof (cases "int (length sec) \<le> next_start self e")
        case True
        with \<open>start < int (length sec)\<close> body have "r = chunks'"
          by (auto simp: Let_def e_def t_def chunks'_def)
        with b' show ?thesis by simp
      next
        case False
        with \<open>start < int (length sec)\<close> body have "loop self sec (next_start self e) chunks' = Some r"
          by (auto simp: Let_def e_def t_def chunks'_def)
        from IH[OF this] pos ns b' show ?thesis by simp
      qed
    qed
  qed
qed

lemma chunk_section_bounded:
  "0 < chunk_size self \<Longrightarrow> chunk_section self sec = Some r \<Longrightarrow> bounded self r"
proof -
  assume pos: "0 < chunk_size self" and r: "chunk_section self sec = Some r"
  show ?thesis
  proof (cases "int (length sec) \<le> chunk_size self")
    case True
    with r have "r = [\<lparr>chunk_text = strip sec, chunk_metadata = []\<rparr>]" by (simp add: chunk_section_def)
    with True length_strip_le[of sec] show ?thesis by (simp add: bounded_def)
  next
    case False
    with r have "chunk_loop self sec 0 [] = Some r" by (simp add: chunk_section_def)
    from chunk_loop_bounded[OF this] pos show ?thesis by (simp add: bounded_def)
  qed
qed

lemma chunk_sections_bounded:
  "0 < chunk_size self \<Longrightarrow> chunk_sections self secs acc = Some r \<Longrightarrow> bounded self acc \<Longrightarrow> bounded self r"
proof (induction secs arbitrary: acc)
  case Nil
  then show ?case by simp
next
  case (Cons sec secs)
  from Cons.prems(2) obtain sc where sc: "chunk_section self sec = Some sc"
    and rest: "chunk_sections self secs (acc @ sc) = Some r"
    by (auto split: option.splits)
  have "bounded self (acc @ sc)"
    using chunk_section_bounded[OF Cons.prems(1) sc] Cons.prems(3) by (auto simp: bounded_def)
  from Cons.IH[OF Cons.prems(1) rest this] show ?case .
qed

text \<open>
  C4.  For a valid configuration every chunk that \<open>chunk_markdown\<close> returns has at most
  \<open>chunk_size\<close> characters, and a section of at most \<open>chunk_size\<close> characters is one
  chunk, the section trimmed.
\<close>

theorem chunk_bound:
  assumes "MarkdownChunker_init csize coverlap = Inr self"
  shows "(\<forall>chunks. chunk_markdown self content = Some chunks \<longrightarrow>
            (\<forall>c \<in> set chunks. int (length (chunk_text c)) \<le> chunk_size self))
       \<and> (\<forall>sec. int (length sec) \<le> chunk_size self \<longrightarrow>
            chunk_section self sec = Some [\<lparr>chunk_text = strip sec, chunk_metadata = []\<rparr>])"
proof -
  from assms have pos: "0 < chunk_size self"
    by (auto simp: MarkdownChunker_init_def split: if_splits)
  have "bounded self chunks" if "chunk_markdown self content = Some chunks" for chunks
  proof (cases "content = [] \<or> strip content = []")
    case True
    with that show ?thesis by (auto simp: chunk_markdown_def bounded_def)
  next
    case False
    with that have "chunk_sections self (split_into_sections content) [] = Some chunks"
      by (auto simp: chunk_markdown_def)
    from chunk_sections_bounded[OF pos this] show ?thesis by (simp add: bounded_def)
  qed
  then show ?thesis by (auto simp: bounded_def chunk_section_def)
qed

theorem chunk_bound_witness:
  "MarkdownChunker_init 10 5 = Inr small_chunker
   \<and> chunk_markdown small_chunker fifteen_letters =
       Some [\<lparr>chunk_text = asc ''abcdefghij'', chunk_metadata = []\<rparr>,
             \<lparr>chunk_text = asc ''fghijklmno'', chunk_metadata = []\<rparr>,
             \<lparr>chunk_text = asc ''klmno'', chunk_metadata = []\<rparr>]
   \<and> int (length (asc ''abcdefghij'')) \<le> chunk_size small_chunker
   \<and> int (length (asc ''fghijklmno'')) \<le> chunk_size small_chunker
   \<and> int (length (asc ''klmno'')) \<le> chunk_size small_chunker
   \<and> int (length (asc ''  abc '')) \<le> chunk_size small_chunker
   \<and> chunk_section small_chunker (asc ''  abc '') =
       Some [\<lparr>chunk_text = asc ''abc'', chunk_metadata = []\<rparr>]"
proof -
  have init: "MarkdownChunker_init 10 5 = Inr small_chunker"
    by (simp add: MarkdownChunker_init_def small_chunker_def)
  have run: "chunk_markdown small_chunker fifteen_letters =
       Some [\<lparr>chunk_text = asc ''abcdefghij'', chunk_metadata = []\<rparr>,
             \<lparr>chunk_text = asc ''fghijklmno'', chunk_metadata = []\<rparr>,
             \<lparr>chunk_text = asc ''klmno'', chunk_metadata = []\<rparr>]"
    by (simp add: chunk_markdown_def small_chunker_def fifteen_letters_def asc_def strip_def
          isspace_def split_into_sections_def split_char_def is_header_def chunk_section_def
          chunk_loop.simps window_end_def next_start_def rfind_def py_clip_def py_slice_def
          Let_def)
  have short: "int (length (asc ''  abc '')) \<le> chunk_size small_chunker"
    by (simp add: asc_def small_chunker_def)
  have trimmed: "strip (asc ''  abc '') = asc ''abc''"
    by (simp add: asc_def strip_def isspace_def)
  from chunk_bound[OF init, of fifteen_letters] run
  have "\<forall>c \<in> set [\<lparr>chunk_text = asc ''abcdefghij'', chunk_metadata = []\<rparr>,
             \<lparr>chunk_text = asc ''fghijklmno'', chunk_metadata = []\<rparr>,
             \<lparr>chunk_text = asc ''klmno'', chunk_metadata = []\<rparr>].
          int (length (chunk_text c)) \<le> chunk_size small_chunker"
    by blast
  moreover from chunk_bound[OF init, of fifteen_letters] short trimmed
  have "chunk_section small_chunker (asc ''  abc '') =
       Some [\<lparr>chunk_text = asc ''abc'', chunk_metadata = []\<rparr>]"
    by metis
  ultimately show ?thesis using init run short by simp
qed

section \<open>The pipeline: filters and alignment\<close>

lemma dropWhile_all_iff: "(\<forall>x \<in> set (dropWhile P s). P x) \<longleftrightarrow> (\<forall>x \<in> set s. P x)"
proof
  assume L: "\<forall>x \<in> set (dropWhile P s). P x"
  have "dropWhile P s = []"
  proof (rule ccontr)
    assume ne: "dropWhile P s \<noteq> []"
    then have "\<not> P (hd (dropWhile P s))" by (rule hd_dropWhile)
    moreover from ne have "hd (dropWhile P s) \<in> set (dropWhile P s)" by (rule hd_in_set)
    ultimately show False using L by blast
  qed
  then show "\<forall>x \<in> set s. P x" by (simp add: dropWhile_eq_Nil_conv)
next
  assume "\<forall>x \<in> set s. P x"
  then show "\<forall>x \<in> set (dropWhile P s). P x" by (auto dest: set_dropWhileD)
qed

lemma strip_empty_iff: "strip s = [] \<longleftrightarrow> is_blank s"
  by (simp add: strip_def is_blank_def dropWhile_eq_Nil_conv dropWhile_all_iff)

lemma is_relevant_iff: "is_relevant r \<longleftrightarrow> \<not> (is_blank (result_text r) \<or> result_score r < 1 / 2)"
  by (auto simp: is_relevant_def strip_empty_iff[symmetric] strip_def)

lemma run_shape:
  assumes "run self q k use_llm sp = Inr res"
  obtains rs where "search_similar self q k = Inr rs"
    "sources res = filter is_relevant rs"
    "contexts res = filter is_valid_context (map result_text (sources res))"
  using assms
  by (auto simp: run_def retrieve_def Let_def split: if_splits sum.splits)

text \<open>
  C1 (amended).  In every result of \<open>run\<close> the contexts are the texts of the sources that
  pass the content filter, in the order of the sources; so there are at most as many
  contexts as sources, and the two are index-aligned exactly when every source passes the
  content filter.
\<close>

theorem run_alignment:
  assumes "run self q k use_llm sp = Inr res"
  shows "contexts res = filter is_valid_context (map result_text (sources res))
       \<and> length (contexts res) \<le> length (sources res)
       \<and> ((length (contexts res) = length (sources res)
            \<and> (\<forall>i < length (contexts res). contexts res ! i = result_text (sources res ! i)))
           \<longleftrightarrow> (\<forall>r \<in> set (sources res). is_valid_context (result_text r)))"
proof -
  from assms obtain rs where c: "contexts res = filter is_valid_context (map result_text (sources res))"
    by (rule run_shape)
  have len: "length (contexts res) \<le> length (sources res)"
    unfolding c using length_filter_le[of is_valid_context "map result_text (sources res)"] by simp
  have "(length (contexts res) = length (sources res)
            \<and> (\<forall>i < length (contexts res). contexts res ! i = result_text (sources res ! i)))
       \<longleftrightarrow> contexts res = map result_text (sources res)"
    by (auto simp: list_eq_iff_nth_eq)
  also have "\<dots> \<longleftrightarrow> (\<forall>r \<in> set (sources res). is_valid_context (result_text r))"
    unfolding c by (auto simp: filter_id_conv)
  finally show ?thesis using c len by blast
qed

text \<open>
  C8.  The sources of every result of \<open>run\<close> are the retrieved results without those
  whose text is blank or whose score is below 0.5; with three results of scores 0.9, 0.4 and
  0.2 and texts that pass the content filter, only the first is a source and there is one
  context.
\<close>

theorem run_score_filter:
  assumes "search_similar self q k = Inr rs" and "run self q k use_llm sp = Inr res"
  shows "sources res = filter (\<lambda>r. \<not> (is_blank (result_text r) \<or> result_score r < 1 / 2)) rs
    \<and> (\<forall>r1 r2 r3. rs = [r1, r2, r3] \<and> result_score r1 = 9 / 10 \<and> result_score r2 = 4 / 10
          \<and> result_score r3 = 2 / 10 \<and> is_valid_context (result_text r1)
          \<and> is_valid_context (result_text r2) \<and> is_valid_context (result_text r3)
        \<longrightarrow> sources res = [r1] \<and> length (contexts res) = 1)"
proof -
  from assms(2) obtain rs' where rs': "search_similar self q k = Inr rs'"
    and s: "sources res = filter is_relevant rs'"
    and c: "contexts res = filter is_valid_context (map result_text (sources res))"
    by (rule run_shape)
  from rs' assms(1) have [simp]: "rs' = rs" by simp
  have 1: "sources res = filter (\<lambda>r. \<not> (is_blank (result_text r) \<or> result_score r < 1 / 2)) rs"
    unfolding s by (rule filter_cong) (auto simp: is_relevant_iff)
  have nb: "\<not> is_blank t" if "is_valid_context t" for t
    using that by (auto simp: is_valid_context_def strip_empty_iff[symmetric])
  show ?thesis using 1 c nb by auto
qed

section \<open>The template answer\<close>

lemma py_slice_take: "0 \<le> k \<Longrightarrow> py_slice xs 0 k = take (nat k) xs"
  by (auto simp: py_slice_def py_clip_def Let_def min_def)

lemma clean_context_rendered:
  "0 \<le> m \<Longrightarrow> clean_context m i ctx = rendered_context (nat (m div 3)) i ctx"
proof -
  assume m: "0 \<le> m"
  then have k: "0 \<le> m div 3" by simp
  have f: "filter (\<lambda>line. strip line \<noteq> []) ls = filter (\<lambda>line. \<not> is_blank line) ls" for ls
    by (rule filter_cong) (auto simp: strip_empty_iff)
  have lt: "(int n > m div 3) = (n > nat (m div 3))" for n using k by linarith
  show ?thesis
    by (simp add: clean_context_def rendered_context_def collapse_blank_lines_def Let_def f
          py_slice_take[OF k] lt)
qed

lemma clean_contexts_loop_map:
  "clean_contexts_loop m i ctxs acc =
     acc @ map (\<lambda>(j, ctx). clean_context m j ctx) (enumerate i ctxs)"
  by (induction ctxs arbitrary: i acc) simp_all

lemma build_simple_response_spec:
  assumes "0 \<le> m" "ctxs \<noteq> []"
  shows "build_simple_response q ctxs m = simple_response_spec q ctxs m"
proof -
  have "(\<lambda>(j, ctx). clean_context m j ctx)
      = (\<lambda>(j, ctx). rendered_context (nat (m div 3)) j ctx)"
    by (simp add: fun_eq_iff clean_context_rendered[OF assms(1)])
  then show ?thesis using assms(2)
    by (simp add: build_simple_response_def simple_response_spec_def Let_def
          clean_contexts_loop_map py_slice_take)
qed

lemma filter_filter_implied:
  "(\<And>x. Q x \<Longrightarrow> P x) \<Longrightarrow> filter P (filter Q xs) = filter Q xs"
  by (induction xs) auto

lemma generate_no_llm:
  assumes "ctxs \<noteq> []" "\<forall>c \<in> set ctxs. is_valid_context c"
  shows "generate self q ctxs False sp = Inr (build_simple_response q ctxs 1000)"
proof -
  have "filter (\<lambda>ctx. ctx \<noteq> [] \<and> strip ctx \<noteq> [] \<and> length (strip ctx) \<ge> 20) ctxs = ctxs"
  proof -
    have "c \<noteq> [] \<and> strip c \<noteq> [] \<and> length (strip c) \<ge> 20" if "c \<in> set ctxs" for c
    proof -
      from that assms(2) have l: "20 \<le> length (strip c)" by (simp add: is_valid_context_def)
      then have "strip c \<noteq> []" by auto
      moreover have "c \<noteq> []" using l by (auto simp: strip_def)
      ultimately show ?thesis using l by simp
    qed
    then show ?thesis by (simp add: filter_id_conv)
  qed
  then show ?thesis using assms(1) by (simp add: generate_def Let_def)
qed

lemma run_no_llm:
  assumes "run self q k False sp = Inr res" "contexts res \<noteq> []"
  shows "answer res = build_simple_response q (contexts res) 1000"
proof -
  from assms(1) obtain rs where rs: "retrieve self q k = Inr rs"
    by (auto simp: run_def split: if_splits sum.splits)
  define v where "v = filter is_valid_context (map result_text (filter is_relevant rs))"
  from assms rs have v: "v \<noteq> []" and g: "generate self q v False sp = Inr (answer res)" and c: "contexts res = v"
    by (auto simp: run_def Let_def v_def split: if_splits sum.splits)
  have "\<forall>c \<in> set v. is_valid_context c" by (auto simp: v_def)
  from generate_no_llm[OF v this] g c show ?thesis by simp
qed

lemma generate_ignores_llm:
  "generate (self\<lparr>llm_manager := g\<rparr>) q v False sp = generate self q v False sp"
  by (simp add: generate_def Let_def)

lemma run_ignores_llm:
  "run (self\<lparr>llm_manager := g\<rparr>) q k False sp = run self q k False sp"
  by (simp add: run_def retrieve_def generate_ignores_llm Let_def cong: sum.case_cong if_cong)

text \<open>
  C7.  \<open>build_simple_response\<close> answers the fixed sentence for no contexts and otherwise
  renders the first three contexts as the specification words it; a run with generation
  disabled that keeps some context answers exactly this string over its contexts, and does
  not depend on the generator at all.
\<close>

theorem simple_response:
  "build_simple_response q [] m = NO_INFORMATION_FOUND
   \<and> (0 \<le> m \<and> ctxs \<noteq> [] \<longrightarrow> build_simple_response q ctxs m = simple_response_spec q ctxs m)
   \<and> (run self q k False sp = Inr res \<and> contexts res \<noteq> []
        \<longrightarrow> answer res = build_simple_response q (contexts res) 1000)
   \<and> run (self\<lparr>llm_manager := g\<rparr>) q k False sp = run self q k False sp"
  using build_simple_response_spec[of m ctxs q] run_no_llm[of self q k sp res]
    run_ignores_llm[of g self q k sp]
  by (simp add: build_simple_response_def)

section \<open>Runs on the concrete pipelines\<close>

lemma item_a_text:
  "result_text item_a \<noteq> []" "strip (result_text item_a) \<noteq> []"
  "20 \<le> length (strip (result_text item_a))" "take 1 (strip (result_text item_a)) \<noteq> [46]"
  by (simp_all add: item_a_def asc_def strip_def isspace_def)

lemma relevant_items:
  "is_relevant item_a" "\<not> is_relevant item_b" "\<not> is_relevant item_c" "is_relevant short_result"
  by (simp_all add: is_relevant_def item_a_def item_b_def item_c_def short_result_def asc_def
        strip_def isspace_def)

lemma valid_items:
  "is_valid_context (result_text item_a)" "\<not> is_valid_context (result_text short_result)"
  using item_a_text
  by (simp_all add: is_valid_context_def)
     (simp add: short_result_def asc_def strip_def isspace_def)

lemma valid_items_b_c:
  "is_valid_context (result_text item_b)" "is_valid_context (result_text item_c)"
  by (simp_all add: is_valid_context_def item_b_def item_c_def asc_def strip_def isspace_def)

lemma question: "strip question_a \<noteq> []" "question_a \<noteq> []"
  by (simp_all add: question_a_def asc_def strip_def isspace_def)

lemma pipelines:
  "search_similar three_results_pipeline q k = Inr [item_a, item_b, item_c]"
  "llm_manager three_results_pipeline = None"
  "search_similar short_result_pipeline q k = Inr [short_result]"
  "search_similar failing_loader_pipeline q k = Inr [item_a]"
  "llm_manager failing_loader_pipeline = Some failing_loader"
  "is_loaded failing_loader = False" "initialize failing_loader = Some RuntimeError"
  by (simp_all add: three_results_pipeline_def short_result_pipeline_def
        failing_loader_pipeline_def failing_loader_def)

lemma run_short:
  "run short_result_pipeline (question_a) 5 False None =
     Inr useless_result"
  by (simp add: run_def retrieve_def question relevant_items valid_items pipelines
        useless_result_def)

lemma generate_item_a:
  "generate three_results_pipeline q [result_text item_a] u sp =
     Inr (build_simple_response q [result_text item_a] 1000)"
  by (simp add: generate_def item_a_text pipelines)

lemma run_three:
  "run three_results_pipeline (question_a) 5 False None =
     Inr item_a_result"
  by (simp add: run_def retrieve_def relevant_items valid_items question generate_item_a pipelines
        Let_def item_a_result_def)

text \<open>C1 as stated fails: one relevant result with a ten-character text gives a result with
  no context and one source.\<close>

theorem run_alignment_counterexample:
  "run short_result_pipeline question_a 5 False None = Inr useless_result
   \<and> length (contexts useless_result) \<noteq> length (sources useless_result)"
  using run_short by (simp add: useless_result_def)

theorem run_alignment_witness:
  "run three_results_pipeline question_a 5 False None = Inr item_a_result
   \<and> contexts item_a_result = filter is_valid_context (map result_text (sources item_a_result))
   \<and> length (contexts item_a_result) \<le> length (sources item_a_result)
   \<and> ((length (contexts item_a_result) = length (sources item_a_result)
        \<and> (\<forall>i < length (contexts item_a_result).
              contexts item_a_result ! i = result_text (sources item_a_result ! i)))
       \<longleftrightarrow> (\<forall>r \<in> set (sources item_a_result). is_valid_context (result_text r)))"
  using run_alignment[OF run_three] run_three by blast

theorem run_score_filter_witness:
  "search_similar three_results_pipeline question_a 5 = Inr [item_a, item_b, item_c]
   \<and> run three_results_pipeline question_a 5 False None = Inr item_a_result
   \<and> result_score item_a = 9 / 10 \<and> result_score item_b = 4 / 10 \<and> result_score item_c = 2 / 10
   \<and> is_valid_context (result_text item_a) \<and> is_valid_context (result_text item_b)
   \<and> is_valid_context (result_text item_c)
   \<and> sources item_a_result = [item_a] \<and> length (contexts item_a_result) = 1"
proof -
  have scores: "result_score item_a = 9 / 10" "result_score item_b = 4 / 10"
    "result_score item_c = 2 / 10"
    by (simp_all add: item_a_def item_b_def item_c_def)
  from run_score_filter[OF pipelines(1) run_three] scores valid_items(1) valid_items_b_c
  have "sources item_a_result = [item_a] \<and> length (contexts item_a_result) = 1"
    by blast
  with scores valid_items(1) valid_items_b_c pipelines(1) run_three show ?thesis by blast
qed

theorem simple_response_witness:
  "(0::int) \<le> 1000 \<and> [result_text item_a] \<noteq> []
   \<and> build_simple_response question_a [result_text item_a] 1000
       = simple_response_spec question_a [result_text item_a] 1000
   \<and> run three_results_pipeline question_a 5 False None = Inr item_a_result
   \<and> contexts item_a_result \<noteq> []
   \<and> answer item_a_result = build_simple_response question_a (contexts item_a_result) 1000"
proof -
  have c: "contexts item_a_result \<noteq> []" by (simp add: item_a_result_def)
  from simple_response[of question_a 1000 "[result_text item_a]" three_results_pipeline 5 None
      item_a_result] run_three c
  show ?thesis by simp
qed

text \<open>
  C2.  The claim is that a run with a valid query and \<open>top_k\<close> always returns a result
  unless retrieval fails.  Here retrieval succeeds with one relevant, long enough result,
  generation is enabled, the model is not loaded and loading it raises: \<open>generate\<close> calls
  \<open>initialize()\<close> before its \<open>try\<close> block, so the exception reaches the caller.
\<close>

theorem run_surfaces_load_failure:
  "search_similar failing_loader_pipeline question_a 5 = Inr [item_a]
   \<and> run failing_loader_pipeline question_a 5 True None = Inl RuntimeError"
  by (simp add: run_def retrieve_def relevant_items valid_items question pipelines generate_def
        item_a_text)

section \<open>Answer quality: no exception, trivial values on blank input\<close>

lemma py_truediv_pos: "0 < b \<Longrightarrow> py_truediv a b = Inr (of_nat a / of_nat b)"
  by (simp add: py_truediv_def)

lemma py_getitem_nat: "i < length xs \<Longrightarrow> py_getitem xs (int i) = Inr (xs ! i)"
  by (simp add: py_getitem_def)

lemma py_getitem_Suc: "Suc i < length xs \<Longrightarrow> py_getitem xs (int i + 1) = Inr (xs ! Suc i)"
  using py_getitem_nat[of "Suc i" xs] by (simp add: add.commute)

lemma py_getitem_last: "xs \<noteq> [] \<Longrightarrow> py_getitem xs (- 1) = Inr (last xs)"
  by (cases xs rule: rev_cases) (auto simp: py_getitem_def nth_append)

lemma not_islE: "\<not> isl x \<Longrightarrow> (\<And>v. x = Inr v \<Longrightarrow> P) \<Longrightarrow> P"
  by (cases x) auto

lemma detect_adjacent_total:
  "\<forall>i \<in> set idxs. Suc i < length sentences \<Longrightarrow> \<not> isl (detect_adjacent mrl sentences idxs)"
proof (induction idxs)
  case Nil
  then show ?case by simp
next
  case (Cons i idxs)
  then have i: "Suc i < length sentences" and IH: "\<not> isl (detect_adjacent mrl sentences idxs)"
    by auto
  from i have i0: "i < length sentences" by simp
  show ?case
    using IH by (simp add: py_getitem_nat[OF i0] py_getitem_Suc[OF i] Let_def py_truediv_pos)
qed

lemma py_max_total: "xs \<noteq> [] \<Longrightarrow> \<not> isl (py_max xs)"
  by (cases xs) (auto simp: py_max_def)

lemma detect_repetition_total: "\<not> isl (detect_repetition text mrl)"
proof -
  let ?ss = "re_split text"
  have "\<forall>i \<in> set [0..<nat (int (length ?ss) - 1)]. Suc i < length ?ss" by auto
  from detect_adjacent_total[OF this, of mrl] obtain b
    where b: "detect_adjacent mrl ?ss [0..<nat (int (length ?ss) - 1)] = Inr b"
    by (rule not_islE)
  show ?thesis
  proof (cases b)
    case True
    with b show ?thesis by (simp add: detect_repetition_def Let_def)
  next
    case False
    show ?thesis
    proof (cases "count_words [] (split_ws text) = []")
      case True
      with b False show ?thesis by (simp add: detect_repetition_def Let_def)
    next
      case ne: False
      then have "map snd (count_words [] (split_ws text)) \<noteq> []" by simp
      from py_max_total[OF this] obtain m
        where "py_max (map snd (count_words [] (split_ws text))) = Inr m" by (rule not_islE)
      with b False ne show ?thesis by (simp add: detect_repetition_def Let_def)
    qed
  qed
qed

lemma is_duplicate_of_total: "\<not> isl (is_duplicate_of sentence seen)"
proof (induction seen)
  case Nil
  then show ?case by simp
next
  case (Cons a seen)
  have "0 < card (set (split_ws sentence) \<union> set (split_ws a))" if "0 < card (set (split_ws sentence))"
    using that by (simp add: card_gt_0_iff)
  with Cons show ?case by (simp add: Let_def py_truediv_pos)
qed

lemma clean_loop_total: "\<not> isl (clean_loop sentences idxs cleaned seen)"
proof (induction idxs arbitrary: cleaned seen)
  case Nil
  then show ?case by simp
next
  case (Cons i idxs)
  show ?case
  proof (cases "i < length sentences")
    case False
    then show ?thesis by simp
  next
    case True
    obtain d where d: "is_duplicate_of (strip (sentences ! i)) seen = Inr d"
      using is_duplicate_of_total by (rule not_islE)
    show ?thesis
      using True d Cons.IH
      by (cases d; cases "Suc i < length sentences")
         (simp_all add: py_getitem_nat py_getitem_Suc Let_def)
  qed
qed

lemma split_char_from_nonempty: "split_char_from c cur s \<noteq> []"
  by (induction s arbitrary: cur) auto

lemma lacks_terminator_total: "\<not> isl (lacks_terminator r)"
  by (cases "r = []") (auto simp: lacks_terminator_def py_getitem_last)

lemma last_sentence_total:
  "\<not> isl (if 46 \<in> set r then py_getitem (split_char 46 r) (- 1) else Inr r)"
  by (simp add: split_char_def py_getitem_last split_char_from_nonempty)

lemma clean_repetitive_text_total: "\<not> isl (clean_repetitive_text text)"
proof (cases "text = []")
  case True
  then show ?thesis by (simp add: clean_repetitive_text_def)
next
  case False
  let ?ss = "re_split_capture text"
  obtain cs where cs: "clean_loop ?ss (range_step2 (length ?ss)) [] [] = Inr cs"
    using clean_loop_total by (rule not_islE)
  let ?r = "strip (concat cs)"
  obtain b where b: "lacks_terminator ?r = Inr b"
    using lacks_terminator_total by (rule not_islE)
  show ?thesis
  proof (cases b)
    case False
    with \<open>text \<noteq> []\<close> cs b show ?thesis by (simp add: clean_repetitive_text_def Let_def)
  next
    case True
    obtain ls where ls: "(if 46 \<in> set ?r then py_getitem (split_char 46 ?r) (- 1) else Inr ?r) = Inr ls"
      using last_sentence_total[of ?r] by (rule not_islE)
    let ?r' = "rstrip (rstrip_chars [46, 46, 46] ?r)"
    obtain b' where b': "lacks_terminator ?r' = Inr b'"
      using lacks_terminator_total by (rule not_islE)
    from \<open>text \<noteq> []\<close> cs b True ls b' show ?thesis
      by (cases b') (simp_all add: clean_repetitive_text_def Let_def)
  qed
qed

lemma truncate_loop_total: "\<not> isl (truncate_loop sentences m idxs res cur)"
proof (induction idxs arbitrary: res cur)
  case Nil
  then show ?case by simp
next
  case (Cons i idxs)
  show ?case
    using Cons.IH
    by (cases "i < length sentences"; cases "Suc i < length sentences")
       (simp_all add: py_getitem_nat py_getitem_Suc)
qed

lemma post_process_answer_total: "\<not> isl (post_process_answer text m)"
proof -
  obtain c where c: "clean_repetitive_text text = Inr c"
    using clean_repetitive_text_total by (rule not_islE)
  obtain t where "truncate_loop (re_split_capture c) m (range_step2 (length (re_split_capture c))) [] 0 = Inr t"
    using truncate_loop_total by (rule not_islE)
  with c show ?thesis by (simp add: post_process_answer_def Let_def)
qed

lemma validate_answer_quality_total: "\<not> isl (validate_answer_quality u text lo hi ctxs)"
proof -
  obtain b where b: "detect_repetition (strip text) 20 = Inr b"
    using detect_repetition_total by (rule not_islE)
  then show ?thesis
    by (cases b; cases ctxs)
       (simp_all add: validate_answer_quality_def Let_def py_truediv_pos)
qed


lemma space_not_terminator: "isspace c \<Longrightarrow> \<not> is_terminator c"
  by (auto simp: isspace_def is_terminator_def)

lemma re_split_from_no_terminator:
  "\<forall>c \<in> set s. \<not> is_terminator c \<Longrightarrow> re_split_from capture cur s = [cur @ s]"
  by (induction s arbitrary: cur) simp_all

lemma split_ws_from_blank:
  "is_blank s \<Longrightarrow> split_ws_from cur s = (if cur = [] then [] else [cur])"
  by (induction s arbitrary: cur) (simp_all add: is_blank_def)

lemma range_step2_1: "range_step2 (Suc 0) = [0]"
  by (simp add: range_step2_def)

lemma detect_repetition_blank: "is_blank text \<Longrightarrow> detect_repetition text mrl = Inr False"
  by (simp add: detect_repetition_def re_split_def re_split_from_no_terminator is_blank_def
        space_not_terminator split_ws_def split_ws_from_blank Let_def)

lemma lacks_terminator_Nil: "lacks_terminator [] = Inr False"
  by (simp add: lacks_terminator_def)

lemma strip_Nil: "strip [] = []"
  by (simp add: strip_def)

lemma clean_repetitive_text_blank: "is_blank text \<Longrightarrow> clean_repetitive_text text = Inr []"
proof -
  assume b: "is_blank text"
  then have ss: "re_split_capture text = [text]"
    by (simp add: re_split_capture_def re_split_from_no_terminator is_blank_def space_not_terminator)
  from b have st: "strip text = []" by (simp add: strip_empty_iff)
  show ?thesis
    by (simp add: clean_repetitive_text_def ss range_step2_1 py_getitem_def st Let_def
          strip_Nil lacks_terminator_Nil)
qed

lemma validate_answer_quality_blank:
  "is_blank text \<Longrightarrow> validate_answer_quality u text lo hi ctxs = Inr (False, Some Answer_is_empty)"
  by (simp add: validate_answer_quality_def strip_empty_iff)

lemma re_split_capture_Nil: "re_split_capture [] = [[]]"
  by (simp add: re_split_capture_def)

lemma post_process_answer_blank: "is_blank text \<Longrightarrow> post_process_answer text m = Inr []"
  by (simp add: post_process_answer_def clean_repetitive_text_blank re_split_capture_Nil
        range_step2_1 py_getitem_def strip_Nil Let_def)

text \<open>
  C9.  The four operations return a value on every string (no exception: every indexing,
  division and \<open>max\<close> of the source is inside its guard), and on a blank string they return
  \<open>False\<close>, the empty string, the verdict "Answer is empty" and the empty string.
\<close>

theorem text_quality_total:
  "(\<exists>b. detect_repetition t mrl = Inr b)
   \<and> (\<exists>r. clean_repetitive_text t = Inr r)
   \<and> (\<exists>v. validate_answer_quality u t lo hi ctxs = Inr v)
   \<and> (\<exists>r. post_process_answer t m = Inr r)
   \<and> (is_blank t \<longrightarrow>
        detect_repetition t mrl = Inr False
        \<and> clean_repetitive_text t = Inr []
        \<and> validate_answer_quality u t lo hi ctxs = Inr (False, Some Answer_is_empty)
        \<and> post_process_answer t m = Inr [])"
proof -
  have "\<exists>b. detect_repetition t mrl = Inr b"
    using detect_repetition_total[of t mrl] by (rule not_islE) blast
  moreover have "\<exists>r. clean_repetitive_text t = Inr r"
    using clean_repetitive_text_total[of t] by (rule not_islE) blast
  moreover have "\<exists>v. validate_answer_quality u t lo hi ctxs = Inr v"
    using validate_answer_quality_total[of u t lo hi ctxs] by (rule not_islE) blast
  moreover have "\<exists>r. post_process_answer t m = Inr r"
    using post_process_answer_total[of t m] by (rule not_islE) blast
  ultimately show ?thesis
    using detect_repetition_blank clean_repetitive_text_blank validate_answer_quality_blank
      post_process_answer_blank
    by blast
qed

lemma re_split_from_nonempty: "re_split_from capture cur s \<noteq> []"
  by (induction capture cur s rule: re_split_from.induct) auto

lemma range_step2_Cons: "0 < n \<Longrightarrow> \<exists>rest. range_step2 n = 0 # rest"
proof -
  assume "0 < n"
  then have "0 < (n + 1) div 2" by simp
  then have "[0..<(n + 1) div 2] = 0 # [1..<(n + 1) div 2]" by (simp add: upt_conv_Cons)
  then show ?thesis by (simp add: range_step2_def)
qed

text \<open>
  C10.  When the cleaned answer is longer than \<open>max_length\<close> and so is its first sentence
  (the first piece of the split), \<open>post_process_answer\<close> returns the empty string.
\<close>

theorem post_process_first_sentence_too_long:
  assumes "clean_repetitive_text ans = Inr cleaned"
    and "int (length cleaned) > max_length"
    and "int (length (hd (re_split_capture cleaned))) > max_length"
  shows "post_process_answer ans max_length = Inr []"
proof (cases "ans = []")
  case True
  then show ?thesis by (simp add: post_process_answer_def)
next
  case False
  let ?ss = "re_split_capture cleaned"
  have ne: "?ss \<noteq> []" by (simp add: re_split_capture_def re_split_from_nonempty)
  then obtain rest where r: "range_step2 (length ?ss) = 0 # rest"
    using range_step2_Cons[of "length ?ss"] by auto
  from ne have g: "py_getitem ?ss 0 = Inr (hd ?ss)"
    by (cases ?ss) (simp_all add: py_getitem_def)
  have "truncate_loop ?ss max_length (range_step2 (length ?ss)) [] 0 = Inr []"
    using ne g assms(3) by (simp add: r)
  with False assms(1,2) show ?thesis
    by (simp add: post_process_answer_def Let_def strip_Nil)
qed

section \<open>The cleaner on a single sentence\<close>

lemma set_strip_subset: "set (strip s) \<subseteq> set s"
proof
  fix c assume "c \<in> set (strip s)"
  then have "c \<in> set (dropWhile isspace (rev (dropWhile isspace s)))" by (simp add: strip_def)
  then have "c \<in> set (rev (dropWhile isspace s))" by (rule set_dropWhileD)
  then have "c \<in> set (dropWhile isspace s)" by simp
  then show "c \<in> set s" by (rule set_dropWhileD)
qed

lemma strip_hd_nonspace: "strip s \<noteq> [] \<Longrightarrow> \<not> isspace (hd (strip s))"
proof -
  assume ne: "strip s \<noteq> []"
  let ?d = "dropWhile isspace s"
  from ne have d: "?d \<noteq> []"
  proof (rule contrapos_nn)
    assume e: "?d = []"
    show "strip s = []" unfolding strip_def e by simp
  qed
  then have h: "\<not> isspace (hd ?d)" by (rule hd_dropWhile)
  from d obtain x xs where dx: "?d = x # xs" by (cases ?d) auto
  with h have x: "\<not> isspace x" by simp
  have "rev ?d = rev xs @ [x]" using dx by simp
  then have "dropWhile isspace (rev ?d) = dropWhile isspace (rev xs) @ [x]"
    using x by (simp add: dropWhile_append)
  then have "strip s = x # rev (dropWhile isspace (rev xs))" by (simp add: strip_def)
  with x show ?thesis by simp
qed

lemma strip_last_nonspace: "strip s \<noteq> [] \<Longrightarrow> \<not> isspace (last (strip s))"
proof -
  assume ne: "strip s \<noteq> []"
  let ?r = "dropWhile isspace (rev (dropWhile isspace s))"
  from ne have r: "?r \<noteq> []" by (simp add: strip_def)
  then have "\<not> isspace (hd ?r)" by (rule hd_dropWhile)
  moreover have "last (strip s) = hd ?r" using r by (simp add: strip_def last_rev)
  ultimately show ?thesis by simp
qed

lemma strip_id: "s \<noteq> [] \<Longrightarrow> \<not> isspace (hd s) \<Longrightarrow> \<not> isspace (last s) \<Longrightarrow> strip s = s"
proof -
  assume ne: "s \<noteq> []" and h: "\<not> isspace (hd s)" and l: "\<not> isspace (last s)"
  from ne h have 1: "dropWhile isspace s = s" by (cases s) auto
  from ne l have 2: "dropWhile isspace (rev s) = rev s"
    by (cases s rule: rev_cases) auto
  show ?thesis by (simp add: strip_def 1 2)
qed

lemma strip_idem: "strip (strip s) = strip s"
proof (cases "strip s = []")
  case True
  then show ?thesis by (simp add: strip_Nil)
next
  case False
  then show ?thesis by (intro strip_id strip_hd_nonspace strip_last_nonspace)
qed

lemma rstrip_id: "s \<noteq> [] \<Longrightarrow> \<not> isspace (last s) \<Longrightarrow> rstrip s = s"
  by (cases s rule: rev_cases) (auto simp: rstrip_def)

lemma rstrip_chars_id: "s \<noteq> [] \<Longrightarrow> last s \<notin> set chars \<Longrightarrow> rstrip_chars chars s = s"
  by (cases s rule: rev_cases) (auto simp: rstrip_chars_def)

lemma lacks_terminator_last: "r \<noteq> [] \<Longrightarrow> lacks_terminator r = Inr (\<not> is_terminator (last r))"
  by (simp add: lacks_terminator_def py_getitem_last)

text \<open>One sentence: no separator is found, the text is trimmed and closed by a full stop
  when what is left is longer than ten characters.\<close>

lemma clean_single_sentence:
  assumes ss: "re_split_capture x = [x]" and t: "strip x \<noteq> []"
  shows "clean_repetitive_text x =
     (case lacks_terminator (strip x) of
        Inl e \<Rightarrow> Inl e
      | Inr False \<Rightarrow> Inr (strip x)
      | Inr True \<Rightarrow>
          (case (if 46 \<in> set (strip x) then py_getitem (split_char 46 (strip x)) (- 1)
                 else Inr (strip x)) of
             Inl e \<Rightarrow> Inl e
           | Inr last_sentence \<Rightarrow>
               if length (strip last_sentence) > 10 then
                 (let result' = rstrip (rstrip_chars [46, 46, 46] (strip x)) in
                  case lacks_terminator result' of
                    Inl e \<Rightarrow> Inl e
                  | Inr True \<Rightarrow> Inr (result' @ [46])
                  | Inr False \<Rightarrow> Inr result')
               else Inr (strip x)))"
proof -
  from t have "x \<noteq> []" by (auto simp: strip_Nil)
  then show ?thesis using t
    by (simp add: clean_repetitive_text_def ss range_step2_1 py_getitem_def Let_def)
qed

lemma clean_no_terminator:
  assumes nt: "\<forall>c \<in> set x. \<not> is_terminator c"
  shows "clean_repetitive_text x =
     Inr (if strip x = [] then [] else if length (strip x) > 10 then strip x @ [46] else strip x)"
proof (cases "strip x = []")
  case True
  then show ?thesis by (simp add: clean_repetitive_text_blank strip_empty_iff)
next
  case False
  let ?t = "strip x"
  have ss: "re_split_capture x = [x]"
    using nt by (simp add: re_split_capture_def re_split_from_no_terminator)
  have tn: "\<forall>c \<in> set ?t. \<not> is_terminator c" using nt set_strip_subset[of x] by blast
  then have l: "\<not> is_terminator (last ?t)" using False last_in_set by blast
  then have l46: "last ?t \<noteq> 46" by (auto simp: is_terminator_def)
  have no46: "46 \<notin> set ?t" using tn by (auto simp: is_terminator_def)
  have r1: "rstrip_chars [46, 46, 46] ?t = ?t" using False l46 by (simp add: rstrip_chars_id)
  have r2: "rstrip ?t = ?t" using False by (simp add: rstrip_id strip_last_nonspace)
  show ?thesis
    using False l
    by (simp add: clean_single_sentence[OF ss False] lacks_terminator_last no46 strip_idem r1 r2
          Let_def)
qed

lemma re_split_from_last_char:
  "\<forall>c \<in> set t. \<not> is_terminator c \<Longrightarrow> re_split_from capture cur (t @ [d]) = [cur @ t @ [d]]"
  by (induction t arbitrary: cur) simp_all

lemma clean_dot_terminated:
  assumes nt: "\<forall>c \<in> set t. \<not> is_terminator c" and ne: "t \<noteq> []" and h: "\<not> isspace (hd t)"
  shows "clean_repetitive_text (t @ [46]) = Inr (t @ [46])"
proof -
  let ?x = "t @ [46]"
  have ss: "re_split_capture ?x = [?x]"
    using nt by (simp add: re_split_capture_def re_split_from_last_char)
  have st: "strip ?x = ?x"
    using ne h by (intro strip_id) (auto simp: isspace_def)
  show ?thesis
    using clean_single_sentence[of ?x] ss st
    by (simp add: lacks_terminator_last is_terminator_def)
qed

lemma clean_idempotent_no_terminator:
  assumes nt: "\<forall>c \<in> set x. \<not> is_terminator c"
  shows "clean_twice x = clean_repetitive_text x"
proof -
  let ?t = "strip x"
  have tn: "\<forall>c \<in> set ?t. \<not> is_terminator c" using nt set_strip_subset[of x] by blast
  show ?thesis
  proof (cases "?t = []")
    case True
    then show ?thesis
      by (simp add: clean_twice_def clean_no_terminator[OF nt] clean_repetitive_text_blank
            is_blank_def)
  next
    case False
    show ?thesis
    proof (cases "length ?t > 10")
      case True
      with False show ?thesis
        using clean_dot_terminated[OF tn False strip_hd_nonspace[OF False]]
        by (simp add: clean_twice_def clean_no_terminator[OF nt])
    next
      case short: False
      with False show ?thesis
        by (simp add: clean_twice_def clean_no_terminator[OF nt] clean_no_terminator[OF tn]
              strip_idem)
    qed
  qed
qed

section \<open>The cleaner on repeated sentences\<close>

lemma split_ws_from_Nil_iff: "split_ws_from cur s = [] \<longleftrightarrow> cur = [] \<and> is_blank s"
  by (induction s arbitrary: cur) (auto simp: is_blank_def)

lemma split_ws_nonempty: "\<not> is_blank t \<Longrightarrow> split_ws t \<noteq> []"
  by (simp add: split_ws_def split_ws_from_Nil_iff)

lemma is_duplicate_of_self: "\<not> is_blank t \<Longrightarrow> is_duplicate_of t [t] = Inr True"
proof -
  assume "\<not> is_blank t"
  then have "set (split_ws t) \<noteq> {}" using split_ws_nonempty by simp
  then have c: "0 < card (set (split_ws t))" by (simp add: card_gt_0_iff)
  have ne: "split_ws t \<noteq> []" using \<open>\<not> is_blank t\<close> by (rule split_ws_nonempty)
  from ne have "py_truediv (card (set (split_ws t))) (card (set (split_ws t))) = Inr 1"
    by (simp add: py_truediv_def)
  with ne show ?thesis by (simp add: Let_def)
qed

lemma clean_loop_skip_all:
  "\<forall>i \<in> set idxs. i < length ss \<longrightarrow>
      strip (ss ! i) = [] \<or> is_duplicate_of (strip (ss ! i)) seen = Inr True
   \<Longrightarrow> clean_loop ss idxs cleaned seen = Inr cleaned"
proof (induction idxs)
  case Nil
  then show ?case by simp
next
  case (Cons i idxs)
  then show ?case by (cases "i < length ss") (auto simp: py_getitem_nat Let_def)
qed

lemma re_split_from_separator:
  "\<forall>c \<in> set t. \<not> is_terminator c \<Longrightarrow>
   re_split_from capture cur (t @ 46 # 32 # rest) =
     (cur @ t) # (if capture then [46 # 32 # takeWhile isspace rest] else [])
       @ re_split_from capture [] (dropWhile isspace rest)"
  by (induction t arbitrary: cur) (simp_all add: is_terminator_def isspace_def)

lemma dropWhile_nonblank: "\<not> is_blank s \<Longrightarrow> dropWhile isspace (s @ r) = dropWhile isspace s @ r"
proof -
  assume "\<not> is_blank s"
  then obtain c where "c \<in> set s" "\<not> isspace c" by (auto simp: is_blank_def)
  then show ?thesis by (rule dropWhile_append1)
qed

lemma strip_dropWhile: "strip (dropWhile isspace s) = strip s"
  by (simp add: strip_def)

lemma strip_sentence_separator:
  assumes "\<not> is_blank s" "\<forall>c \<in> set ws. isspace c"
  shows "strip (s @ 46 # ws) = dropWhile isspace s @ [46]"
proof -
  have 1: "dropWhile isspace (s @ 46 # ws) = dropWhile isspace s @ 46 # ws"
    using assms(1) by (rule dropWhile_nonblank)
  have "dropWhile isspace (rev ws @ 46 # rev (dropWhile isspace s))
      = dropWhile isspace (46 # rev (dropWhile isspace s))"
    by (rule dropWhile_append2) (use assms(2) in simp)
  also have "\<dots> = 46 # rev (dropWhile isspace s)" by (simp add: isspace_def)
  finally have 2: "dropWhile isspace (rev ws @ 46 # rev (dropWhile isspace s))
      = 46 # rev (dropWhile isspace s)" .
  show ?thesis unfolding strip_def 1 by (simp add: 2)
qed

text \<open>The pieces after the first copy: every piece at an even index is the sentence without
  its leading whitespace, or empty.\<close>

lemma later_pieces:
  assumes nt: "\<forall>c \<in> set s. \<not> is_terminator c" and nb: "\<not> is_blank s"
  shows "2 * j < length (re_split_from True [] (dropWhile isspace (concat (replicate k (s @ [46, 32])))))
     \<Longrightarrow> re_split_from True [] (dropWhile isspace (concat (replicate k (s @ [46, 32])))) ! (2 * j)
         \<in> {dropWhile isspace s, []}"
proof (induction k arbitrary: j)
  case 0
  then show ?case by simp
next
  case (Suc k)
  let ?l = "dropWhile isspace s" and ?P = "concat (replicate k (s @ [46, 32]))"
  have ntl: "\<forall>c \<in> set ?l. \<not> is_terminator c" using nt set_dropWhileD by fastforce
  have d: "dropWhile isspace (concat (replicate (Suc k) (s @ [46, 32]))) = ?l @ 46 # 32 # ?P"
    using dropWhile_nonblank[OF nb, of "46 # 32 # ?P"] by simp
  have r: "re_split_from True [] (?l @ 46 # 32 # ?P)
      = ?l # (46 # 32 # takeWhile isspace ?P) # re_split_from True [] (dropWhile isspace ?P)"
    using re_split_from_separator[OF ntl, of True "[]" ?P] by simp
  show ?case
  proof (cases j)
    case 0
    then show ?thesis unfolding d r by simp
  next
    case (Suc j')
    with Suc.prems have "2 * j' < length (re_split_from True [] (dropWhile isspace ?P))"
      unfolding d r by simp
    from Suc.IH[OF this] Suc show ?thesis unfolding d r by simp
  qed
qed

lemma range_step2_unfold:
  "0 < n \<Longrightarrow> range_step2 n = 0 # map (\<lambda>k. 2 * k) [1..<(n + 1) div 2]"
proof -
  assume "0 < n"
  then have "0 < (n + 1) div 2" by simp
  then have "[0..<(n + 1) div 2] = 0 # [1..<(n + 1) div 2]" by (simp add: upt_conv_Cons)
  then show ?thesis by (simp add: range_step2_def)
qed

lemma clean_from_loop:
  assumes "x \<noteq> []"
    and "clean_loop (re_split_capture x) (range_step2 (length (re_split_capture x))) [] [] = Inr cs"
    and "strip (concat cs) = r" and "lacks_terminator r = Inr False"
  shows "clean_repetitive_text x = Inr r"
  using assms by (simp add: clean_repetitive_text_def Let_def)

lemma clean_from_loop_open:
  assumes "x \<noteq> []"
    and "clean_loop (re_split_capture x) (range_step2 (length (re_split_capture x))) [] [] = Inr cs"
    and "strip (concat cs) = r" and "lacks_terminator r = Inr True"
    and "46 \<in> set r" and "py_getitem (split_char 46 r) (- 1) = Inr last_sentence"
    and "length (strip last_sentence) > 10"
    and "rstrip (rstrip_chars [46, 46, 46] r) = r'" and "lacks_terminator r' = Inr True"
  shows "clean_repetitive_text x = Inr (r' @ [46])"
  using assms by (simp add: clean_repetitive_text_def Let_def)

lemma clean_repeated_sentence:
  assumes nt: "\<forall>c \<in> set s. \<not> is_terminator c" and nb: "\<not> is_blank s"
  shows "clean_repetitive_text (concat (replicate (Suc n) (s @ [46, 32])))
     = Inr (dropWhile isspace s @ [46])"
proof -
  let ?l = "dropWhile isspace s" and ?P = "concat (replicate n (s @ [46, 32]))"
  let ?x = "concat (replicate (Suc n) (s @ [46, 32]))"
  let ?sep = "46 # 32 # takeWhile isspace ?P"
  let ?R = "re_split_from True [] (dropWhile isspace ?P)"
  let ?ss = "s # ?sep # ?R"
  have x: "?x = s @ 46 # 32 # ?P" by simp
  have ss: "re_split_capture ?x = ?ss"
    unfolding x re_split_capture_def using re_split_from_separator[OF nt, of True "[]" ?P] by simp
  have sne: "strip s \<noteq> []" using nb by (simp add: strip_empty_iff)
  have nbs: "\<not> is_blank (strip s)" using sne by (simp add: strip_empty_iff[symmetric] strip_idem)
  have skip: "\<forall>i \<in> set (map (\<lambda>k. 2 * k) [1..<(length ?ss + 1) div 2]). i < length ?ss \<longrightarrow>
      strip (?ss ! i) = [] \<or> is_duplicate_of (strip (?ss ! i)) [strip s] = Inr True"
  proof (intro ballI impI)
    fix i assume i: "i \<in> set (map (\<lambda>k. 2 * k) [1..<(length ?ss + 1) div 2])" and il: "i < length ?ss"
    then obtain k where k: "i = 2 * k" "1 \<le> k" by auto
    then obtain j where j: "i = 2 * Suc j" by (cases k) auto
    with il have "2 * j < length ?R" by simp
    from later_pieces[OF nt nb this] have "?R ! (2 * j) \<in> {?l, []}" .
    moreover have "?ss ! i = ?R ! (2 * j)" using j by simp
    ultimately have "?ss ! i = ?l \<or> ?ss ! i = []" by simp
    then show "strip (?ss ! i) = [] \<or> is_duplicate_of (strip (?ss ! i)) [strip s] = Inr True"
      using is_duplicate_of_self[OF nbs] by (auto simp: strip_dropWhile strip_Nil simp del: is_duplicate_of.simps)
  qed
  have loop: "clean_loop ?ss (range_step2 (length ?ss)) [] [] = Inr [s, ?sep]"
    using sne clean_loop_skip_all[OF skip, of "[s, ?sep]"]
    by (simp add: range_step2_unfold py_getitem_def Let_def set_add_def)
  have ws: "\<forall>c \<in> set (32 # takeWhile isspace ?P). isspace c"
    using set_takeWhileD by (fastforce simp: isspace_def)
  have res: "strip (concat [s, ?sep]) = ?l @ [46]"
    using strip_sentence_separator[OF nb ws] by simp
  have ne: "?x \<noteq> []" using nb by (auto simp: is_blank_def)
  have lt: "lacks_terminator (?l @ [46]) = Inr False"
    by (simp add: lacks_terminator_last is_terminator_def)
  show ?thesis
    using ne _ res lt by (rule clean_from_loop) (simp only: ss loop)
qed

text \<open>
  C6 (amended).  \<open>clean_repetitive_text\<close> applied twice gives what it gives applied once
  on every text without a sentence terminator, and on every text made of one or more copies of a
  sentence (not blank, without terminator) each followed by a full stop and a space; on the
  latter the result is the sentence without its leading whitespace, closed by a full stop.
\<close>

theorem clean_idempotent_amended:
  "((\<forall>c \<in> set x. \<not> is_terminator c) \<longrightarrow> clean_twice x = clean_repetitive_text x)
   \<and> ((\<forall>c \<in> set s. \<not> is_terminator c) \<and> \<not> is_blank s \<and> 0 < n \<longrightarrow>
        clean_repetitive_text (concat (replicate n (s @ asc ''. '')))
          = Inr (dropWhile isspace s @ asc ''.'')
        \<and> clean_twice (concat (replicate n (s @ asc ''. '')))
          = clean_repetitive_text (concat (replicate n (s @ asc ''. ''))))"
proof (intro conjI impI)
  assume "\<forall>c \<in> set x. \<not> is_terminator c"
  then show "clean_twice x = clean_repetitive_text x" by (rule clean_idempotent_no_terminator)
next
  assume a: "(\<forall>c \<in> set s. \<not> is_terminator c) \<and> \<not> is_blank s \<and> 0 < n"
  then obtain m where n: "n = Suc m" by (cases n) auto
  let ?l = "dropWhile isspace s"
  have asc_sep: "asc ''. '' = [46, 32]" "asc ''.'' = [46]" by (simp_all add: asc_def)
  from a have c: "clean_repetitive_text (concat (replicate n (s @ [46, 32]))) = Inr (?l @ [46])"
    unfolding n by (intro clean_repeated_sentence) auto
  from a have lne: "?l \<noteq> []" by (auto simp: is_blank_def)
  then have h: "\<not> isspace (hd ?l)" by (rule hd_dropWhile)
  have ntl: "\<forall>c \<in> set ?l. \<not> is_terminator c" using a set_dropWhileD by fastforce
  have c2: "clean_repetitive_text (?l @ [46]) = Inr (?l @ [46])"
    using clean_dot_terminated[OF ntl lne h] .
  show "clean_repetitive_text (concat (replicate n (s @ asc ''. ''))) = Inr (?l @ asc ''.'')"
    using c by (simp add: asc_sep)
  show "clean_twice (concat (replicate n (s @ asc ''. '')))
      = clean_repetitive_text (concat (replicate n (s @ asc ''. '')))"
    using c c2 by (simp add: asc_sep clean_twice_def)
qed

section \<open>Answer quality on concrete inputs\<close>

theorem text_quality_total_witness:
  "is_blank three_spaces
   \<and> detect_repetition three_spaces 20 = Inr False
   \<and> clean_repetitive_text three_spaces = Inr []
   \<and> validate_answer_quality ascii_unicode three_spaces 10 2000 None
       = Inr (False, Some Answer_is_empty)
   \<and> post_process_answer three_spaces 1000 = Inr []"
proof -
  have b: "is_blank three_spaces"
    by (simp add: is_blank_def three_spaces_def asc_def isspace_def)
  from text_quality_total[where t = three_spaces and mrl = 20 and u = ascii_unicode and lo = 10
      and hi = 2000 and ctxs = None and m = 1000] b
  show ?thesis by blast
qed

lemma long_sentence_facts:
  "\<forall>c \<in> set long_sentence. \<not> is_terminator c" "strip long_sentence = long_sentence"
  "length long_sentence = 29" "long_sentence \<noteq> []"
  by (simp_all add: long_sentence_def asc_def is_terminator_def strip_def isspace_def)

theorem post_process_first_sentence_too_long_witness:
  "clean_repetitive_text long_sentence = Inr (long_sentence @ [46])
   \<and> int (length (long_sentence @ [46])) > 10
   \<and> int (length (hd (re_split_capture (long_sentence @ [46])))) > 10
   \<and> post_process_answer long_sentence 10 = Inr []"
proof -
  have c: "clean_repetitive_text long_sentence = Inr (long_sentence @ [46])"
    by (simp add: clean_no_terminator[OF long_sentence_facts(1)] long_sentence_facts)
  have l: "int (length (long_sentence @ [46])) > 10"
    by (simp add: long_sentence_facts)
  have h: "int (length (hd (re_split_capture (long_sentence @ [46])))) > 10"
    by (simp add: re_split_capture_def re_split_from_last_char[OF long_sentence_facts(1)]
          long_sentence_facts)
  from post_process_first_sentence_too_long[OF c l h] c l h show ?thesis by simp
qed

lemma dotted_split:
  "re_split_capture dotted_twice = [asc ''hello world.'', asc ''. '', asc ''hello world'']"
  "re_split_capture (dotted_twice @ [46]) = [asc ''hello world.'', asc ''. '', asc ''hello world.'']"
  by (simp_all add: dotted_twice_def re_split_capture_def asc_def is_terminator_def isspace_def)

lemma dotted_words:
  "split_ws (asc ''hello world.'') = [asc ''hello'', asc ''world.'']"
  "split_ws (asc ''hello world'') = [asc ''hello'', asc ''world'']"
  by (simp_all add: split_ws_def asc_def isspace_def)

lemma dotted_strip:
  "strip (asc ''hello world.'') = asc ''hello world.''"
  "strip (asc ''hello world'') = asc ''hello world''"
  "strip (asc ''hello world.. hello world'') = asc ''hello world.. hello world''"
  "strip (asc ''hello world.. '') = asc ''hello world..''"
  by (simp_all add: strip_def asc_def isspace_def)

lemma dotted_duplicates:
  "is_duplicate_of (asc ''hello world'') [asc ''hello world.''] = Inr False"
  "is_duplicate_of (asc ''hello world.'') [asc ''hello world.''] = Inr True"
  by (simp_all only: is_duplicate_of.simps dotted_words Let_def)
     (simp_all add: asc_def py_truediv_def card_insert_if)

lemma dotted_loop:
  "clean_loop [asc ''hello world.'', asc ''. '', asc ''hello world''] [0, 2] [] []
     = Inr [asc ''hello world.'', asc ''. '', asc ''hello world'']"
  "clean_loop [asc ''hello world.'', asc ''. '', asc ''hello world.''] [0, 2] [] []
     = Inr [asc ''hello world.'', asc ''. '']"
  by (simp_all add: asc_def py_getitem_def strip_def isspace_def set_add_def Let_def split_ws_def
        py_truediv_def card_insert_if)

lemma dotted_range: "range_step2 (Suc (Suc (Suc 0))) = [0, 2]"
  by (simp add: range_step2_def upt_conv_Cons)

lemma dotted_first: "clean_repetitive_text dotted_twice = Inr (dotted_twice @ asc ''.'')"
proof -
  have a: "asc ''.'' = [46]" by (simp add: asc_def)
  have l: "clean_loop (re_split_capture dotted_twice)
      (range_step2 (length (re_split_capture dotted_twice))) [] []
      = Inr [asc ''hello world.'', asc ''. '', asc ''hello world'']"
    by (simp add: dotted_split dotted_range dotted_loop del: clean_loop.simps)
  show ?thesis unfolding a
    by (rule clean_from_loop_open[OF _ l, where r = dotted_twice and last_sentence = "asc '' hello world''"])
       (simp_all add: asc_def dotted_twice_def strip_def isspace_def lacks_terminator_def
          py_getitem_def split_char_def rstrip_def rstrip_chars_def is_terminator_def)
qed

lemma dotted_second: "clean_repetitive_text (dotted_twice @ asc ''.'') = Inr (asc ''hello world..'')"
proof -
  have a: "asc ''.'' = [46]" by (simp add: asc_def)
  have l: "clean_loop (re_split_capture (dotted_twice @ [46]))
      (range_step2 (length (re_split_capture (dotted_twice @ [46])))) [] []
      = Inr [asc ''hello world.'', asc ''. '']"
    by (simp add: dotted_split dotted_range dotted_loop del: clean_loop.simps)
  show ?thesis unfolding a
    by (rule clean_from_loop[OF _ l])
       (simp_all add: asc_def strip_def isspace_def lacks_terminator_def py_getitem_def
          is_terminator_def)
qed

text \<open>
  C6 as stated fails: on \<open>hello world.. hello world\<close> the first pass keeps both sentences
  and closes the text with a full stop, which makes the second sentence a duplicate of the first
  for the second pass.
\<close>

theorem clean_not_idempotent:
  "clean_repetitive_text dotted_twice = Inr (dotted_twice @ asc ''.'')
   \<and> clean_repetitive_text (dotted_twice @ asc ''.'') = Inr (asc ''hello world..'')
   \<and> clean_twice dotted_twice \<noteq> clean_repetitive_text dotted_twice"
  by (simp add: clean_twice_def dotted_first dotted_second)
     (simp add: dotted_twice_def asc_def)

text \<open>The amended C6 on \<open>hello world\<close> and on three copies of \<open> hello world. \<close>.\<close>

theorem clean_idempotent_amended_witness:
  "clean_twice (asc ''hello world'') = clean_repetitive_text (asc ''hello world'')
   \<and> clean_repetitive_text (concat (replicate 3 (asc '' hello world'' @ asc ''. '')))
       = Inr (asc ''hello world.'')
   \<and> clean_twice (concat (replicate 3 (asc '' hello world'' @ asc ''. '')))
       = clean_repetitive_text (concat (replicate 3 (asc '' hello world'' @ asc ''. '')))"
  using clean_idempotent_amended [of "asc ''hello world''" "asc '' hello world''" 3]
  by (simp add: asc_def is_terminator_def is_blank_def isspace_def)

end
